theory Spec2Isabelle
  imports Main "HOL-Library.AList" "HOL-Library.Sublist"
begin

section \<open>Values and configuration\<close>

text \<open>
  The server (\<^verbatim>\<open>server.js\<close>) reads a JSON configuration, so a configured value may be
  any JSON value; the code tests \<^verbatim>\<open>typeof v === 'string'\<close> before it looks at one.
  Numbers are integers here (no claim reads a number). A JavaScript object is a list of
  entries with distinct keys, in insertion order. \<open>JInherited k\<close> is no JSON value: it
  is the property \<open>k\<close> of \<^verbatim>\<open>Object.prototype\<close> (a function, or the prototype itself
  for \<^verbatim>\<open>__proto__\<close>), which a property read on an object without an own property
  \<open>k\<close> yields.
\<close>

datatype json =
    JNull
  | JBool bool
  | JNumber int
  | JString string
  | JArray "json list"
  | JObject "(string \<times> json) list"
  | JInherited string

text \<open>An \<^verbatim>\<open>Error\<close> object is its \<^verbatim>\<open>message\<close>.\<close>

datatype error = Error (message: string)

text \<open>\<^verbatim>\<open>s.startsWith(p)\<close> and \<^verbatim>\<open>s.slice(1)\<close> on strings.\<close>

definition startsWith :: "string \<Rightarrow> string \<Rightarrow> bool" where
  "startsWith s p = (take (length p) s = p)"

definition slice1 :: "string \<Rightarrow> string" where
  "slice1 s = drop 1 s"

text \<open>
  \<^verbatim>\<open>process.env\<close> is an object whose own properties are the environment variables,
  with strings as values: a list of entries \<open>penv\<close>. The read
  \<^verbatim>\<open>process.env[envVar]\<close> yields the variable's value when the variable is set;
  otherwise it goes on to the prototype of the object, \<^verbatim>\<open>Object.prototype\<close>, and
  yields the property of that name when there is one, and \<^verbatim>\<open>undefined\<close> (\<open>None\<close>)
  when there is none. The names are the own properties of \<^verbatim>\<open>Object.prototype\<close> of
  the language.
\<close>

definition objectPrototypeNames :: "string list" where
  "objectPrototypeNames =
     [''constructor'', ''__defineGetter__'', ''__defineSetter__'', ''hasOwnProperty'',
      ''__lookupGetter__'', ''__lookupSetter__'', ''isPrototypeOf'', ''propertyIsEnumerable'',
      ''toString'', ''valueOf'', ''__proto__'', ''toLocaleString'']"

definition processEnv :: "(string \<times> string) list \<Rightarrow> string \<Rightarrow> json option" where
  "processEnv penv envVar =
     (case map_of penv envVar of
        Some v \<Rightarrow> Some (JString v)
      | None \<Rightarrow> if envVar \<in> set objectPrototypeNames then Some (JInherited envVar) else None)"

text \<open>
  \<^verbatim>\<open>process.env[envVar] || arg\<close>: what the read yields when that is truthy, and
  \<^verbatim>\<open>arg\<close> when it is \<^verbatim>\<open>undefined\<close> or the empty string (an inherited property
  is a function or an object, and truthy).
\<close>

definition envOr :: "(string \<times> string) list \<Rightarrow> string \<Rightarrow> json \<Rightarrow> json" where
  "envOr penv envVar arg =
     (case processEnv penv envVar of
        None \<Rightarrow> arg
      | Some v \<Rightarrow> if v \<noteq> JString [] then v else arg)"

text \<open>The callback of \<^verbatim>\<open>(serverConfig.args || []).map(...)\<close>, lines 69 to 75.\<close>

definition resolveArg :: "(string \<times> string) list \<Rightarrow> json \<Rightarrow> json" where
  "resolveArg penv arg =
     (case arg of
        JString s \<Rightarrow>
          if startsWith s ''$'' then (let envVar = slice1 s in envOr penv envVar arg)
          else arg
      | _ \<Rightarrow> arg)"

text \<open>
  Object spread \<^verbatim>\<open>{ ...a, ...b }\<close>: the entries of \<open>a\<close>, then every entry of \<open>b\<close>
  in order, an existing key keeping its place and taking the new value.
\<close>

definition spread :: "(string \<times> 'v) list \<Rightarrow> (string \<times> 'v) list \<Rightarrow> (string \<times> 'v) list" where
  "spread a b = fold (\<lambda>(k, v). AList.update k v) b a"

text \<open>
  Lines 78 to 86: the process environment merged with the configured entries, then the
  loop over \<^verbatim>\<open>Object.entries(env)\<close> (a snapshot of the merged object) that assigns
  \<^verbatim>\<open>env[key]\<close> where the value is a string starting with the marker.
\<close>

definition substituteEntry ::
  "(string \<times> string) list \<Rightarrow> string \<times> json \<Rightarrow> (string \<times> json) list \<Rightarrow> (string \<times> json) list" where
  "substituteEntry penv entry merged =
     (case entry of (key, val) \<Rightarrow>
        (case val of
           JString s \<Rightarrow>
             if startsWith s ''$''
             then (let envVar = slice1 s in AList.update key (envOr penv envVar val) merged)
             else merged
         | _ \<Rightarrow> merged))"

definition resolveEnv ::
  "(string \<times> string) list \<Rightarrow> (string \<times> json) list \<Rightarrow> (string \<times> json) list" where
  "resolveEnv penv cfgEnv =
     (let merged = spread (map (\<lambda>(k, v). (k, JString v)) penv) cfgEnv
      in fold (substituteEntry penv) merged merged)"

text \<open>
  One entry of \<^verbatim>\<open>config.mcpServers\<close>; \<open>args\<close> and \<open>env\<close> may be absent, and
  \<open>orEmpty\<close> is \<^verbatim>\<open>serverConfig.args || []\<close> and \<^verbatim>\<open>serverConfig.env || {}\<close>.
\<close>

record serverConfig =
  command :: json
  args :: "json list option"
  env :: "(string \<times> json) list option"

definition orEmpty :: "'a list option \<Rightarrow> 'a list" where
  "orEmpty x = (case x of None \<Rightarrow> [] | Some xs \<Rightarrow> xs)"

text \<open>The options object given to \<^verbatim>\<open>new StdioClientTransport\<close>, lines 88 to 92.\<close>

record transport =
  t_command :: json
  t_args :: "json list"
  t_env :: "(string \<times> json) list"

definition resolveTransport :: "(string \<times> string) list \<Rightarrow> serverConfig \<Rightarrow> transport" where
  "resolveTransport penv cfg =
     \<lparr> t_command = command cfg,
       t_args = map (resolveArg penv) (orEmpty (args cfg)),
       t_env = resolveEnv penv (orEmpty (env cfg)) \<rparr>"


section \<open>The tool registry of \<^verbatim>\<open>server.js\<close>\<close>

text \<open>
  An element of \<^verbatim>\<open>toolsResult.tools\<close>, as a provider lists it, and an element of the
  global \<^verbatim>\<open>mcpTools\<close> (the fields \<^verbatim>\<open>_serverName\<close> and \<^verbatim>\<open>_originalName\<close>
  lose their underscore).
\<close>

record toolInfo =
  ti_name :: string
  ti_description :: json
  ti_inputSchema :: json

record mcpTool =
  name :: string
  description :: json
  input_schema :: json
  serverName :: string
  originalName :: string

text \<open>What \<^verbatim>\<open>getAnthropicTools\<close> hands to the model.\<close>

record anthropicTool =
  at_name :: string
  at_description :: json
  at_input_schema :: json

text \<open>
  A provider's answer to \<^verbatim>\<open>callTool\<close>: \<^verbatim>\<open>result.content\<close> may be absent; an
  item is a text item or an item of another type (its fields kept as JSON); the other
  fields of the answer matter to \<^verbatim>\<open>JSON.stringify\<close> only.
\<close>

datatype item = TextItem string | OtherItem json

record mcpResult =
  result_content :: "item list option"
  result_rest :: "(string \<times> json) list"

text \<open>
  Content blocks. \<open>ToolUse id name input\<close>; \<open>ToolResult tool_use_id content is_error\<close>
  where \<open>is_error\<close> is \<open>None\<close> when the object has no such field; \<open>OtherBlock\<close> is a
  block of any other type.
\<close>

datatype block =
    Text string
  | ToolUse string string json
  | ToolResult string string "bool option"
  | OtherBlock json

datatype role = user | assistant

datatype content = Str string | Blocks "block list"

record message =
  role :: role
  content :: content

record request =
  model :: string
  max_tokens :: nat
  system :: "json option"
  messages :: "message list"
  tools :: "anthropicTool list option"

record response =
  stop_reason :: string
  resp_content :: "block list"

text \<open>
  The outside world. Every call of an SDK takes the world \<open>'w\<close> and returns the new
  one with its answer, \<open>Inl\<close> when the promise rejects: connecting a client
  (the answer being the connected client \<open>'c\<close>), listing its tools, calling a tool on
  it, and \<^verbatim>\<open>anthropic.messages.create\<close>. \<^verbatim>\<open>JSON.stringify\<close> is a library function,
  taken as it comes.
\<close>

record ('w, 'c) externals =
  connect :: "transport \<Rightarrow> 'w \<Rightarrow> (error + 'c) \<times> 'w"
  listTools :: "'c \<Rightarrow> 'w \<Rightarrow> (error + toolInfo list) \<times> 'w"
  callTool :: "'c \<Rightarrow> string \<Rightarrow> json \<Rightarrow> 'w \<Rightarrow> (error + mcpResult) \<times> 'w"
  messages_create :: "request \<Rightarrow> 'w \<Rightarrow> (error + response) \<times> 'w"
  JSON_stringify :: "mcpResult \<Rightarrow> string"

text \<open>
  The globals of \<^verbatim>\<open>server.js\<close>, and the lines written by \<^verbatim>\<open>console.error\<close>
  in \<^verbatim>\<open>initializeMCP\<close> (the other console output is not modelled).
\<close>

record 'c state =
  mcpClients :: "(string \<times> 'c) list"
  mcpTools :: "mcpTool list"
  console_error :: "string list"

text \<open>The separator of line 101 and the name built there.\<close>

definition qualifiedName :: "string \<Rightarrow> string \<Rightarrow> string" where
  "qualifiedName srv local = srv @ ''__'' @ local"

definition registerTool :: "string \<Rightarrow> toolInfo \<Rightarrow> mcpTool" where
  "registerTool srv tool =
     \<lparr> name = qualifiedName srv (ti_name tool),
       description = ti_description tool,
       input_schema = ti_inputSchema tool,
       serverName = srv,
       originalName = ti_name tool \<rparr>"

text \<open>
  The body of the \<^verbatim>\<open>try\<close> block of \<^verbatim>\<open>initializeMCP\<close> for one entry, lines 61
  to 109. A rejection leaves the assignments made before it in place: when
  \<^verbatim>\<open>listTools\<close> rejects, the client is already stored.
\<close>

definition connectServer ::
  "('w, 'c) externals \<Rightarrow> (string \<times> string) list \<Rightarrow> string \<Rightarrow> serverConfig \<Rightarrow>
   'c state \<Rightarrow> 'w \<Rightarrow> (error + unit) \<times> 'c state \<times> 'w" where
  "connectServer ext penv srv cfg st w =
     (case connect ext (resolveTransport penv cfg) w of
        (Inl err, w1) \<Rightarrow> (Inl err, st, w1)
      | (Inr client, w1) \<Rightarrow>
          (let st1 = st\<lparr> mcpClients := AList.update srv client (mcpClients st) \<rparr> in
           case listTools ext client w1 of
             (Inl err, w2) \<Rightarrow> (Inl err, st1, w2)
           | (Inr toolsResult, w2) \<Rightarrow>
               (Inr (),
                st1\<lparr> mcpTools := mcpTools st1 @ map (registerTool srv) toolsResult \<rparr>,
                w2)))"

text \<open>The \<^verbatim>\<open>catch\<close> block, line 111.\<close>

definition failureLine :: "string \<Rightarrow> error \<Rightarrow> string" where
  "failureLine srv err = ''Failed to connect to MCP server '' @ srv @ '': '' @ message err"

text \<open>The \<^verbatim>\<open>for\<close> loop over \<^verbatim>\<open>Object.entries(config.mcpServers || {})\<close>.\<close>

fun initializeServers ::
  "('w, 'c) externals \<Rightarrow> (string \<times> string) list \<Rightarrow> (string \<times> serverConfig) list \<Rightarrow>
   'c state \<Rightarrow> 'w \<Rightarrow> 'c state \<times> 'w" where
  "initializeServers ext penv [] st w = (st, w)"
| "initializeServers ext penv ((srv, cfg) # rest) st w =
     (case connectServer ext penv srv cfg st w of
        (Inr u, st1, w1) \<Rightarrow> initializeServers ext penv rest st1 w1
      | (Inl err, st1, w1) \<Rightarrow>
          initializeServers ext penv rest
            (st1\<lparr> console_error := console_error st1 @ [failureLine srv err] \<rparr>) w1)"

text \<open>
  \<^verbatim>\<open>initializeMCP\<close>; the configuration that \<^verbatim>\<open>loadMCPConfig\<close> read is a parameter,
  its \<^verbatim>\<open>mcpServers\<close> absent or an object.
\<close>

definition initializeMCP ::
  "('w, 'c) externals \<Rightarrow> (string \<times> string) list \<Rightarrow> (string \<times> serverConfig) list option \<Rightarrow>
   'c state \<Rightarrow> 'w \<Rightarrow> 'c state \<times> 'w" where
  "initializeMCP ext penv mcpServers st w =
     initializeServers ext penv (orEmpty mcpServers) st w"

text \<open>The state of a process that has just started, lines 15 and 16.\<close>

definition initialState :: "'c state" where
  "initialState = \<lparr> mcpClients = [], mcpTools = [], console_error = [] \<rparr>"

text \<open>
  \<^verbatim>\<open>callMCPTool\<close>, lines 119 to 136. The read \<^verbatim>\<open>mcpClients[tool._serverName]\<close>
  is a lookup among the stored clients: a tool is registered only after the client of
  its provider is stored, so the read never goes on to the prototype in a state that
  \<^verbatim>\<open>initializeMCP\<close> builds.
\<close>

definition callMCPTool ::
  "('w, 'c) externals \<Rightarrow> 'c state \<Rightarrow> string \<Rightarrow> json \<Rightarrow> 'w \<Rightarrow> (error + mcpResult) \<times> 'w" where
  "callMCPTool ext st toolName arguments w =
     (case find (\<lambda>t. name t = toolName) (mcpTools st) of
        None \<Rightarrow> (Inl (Error (''Tool not found: '' @ toolName)), w)
      | Some tool \<Rightarrow>
          (case map_of (mcpClients st) (serverName tool) of
             None \<Rightarrow> (Inl (Error (''MCP client not found: '' @ serverName tool)), w)
           | Some client \<Rightarrow> callTool ext client (originalName tool) arguments w))"

definition getAnthropicTools :: "'c state \<Rightarrow> anthropicTool list" where
  "getAnthropicTools st =
     map (\<lambda>tool. \<lparr> at_name = name tool, at_description = description tool,
                   at_input_schema = input_schema tool \<rparr>) (mcpTools st)"

section \<open>The agent loop of \<^verbatim>\<open>server.js\<close>\<close>

text \<open>
  \<^verbatim>\<open>agentPrompts[agentType]\<close>, lines 26 to 44: the prompt of one of the three
  agents, else the property of that name which the table inherits from
  \<^verbatim>\<open>Object.prototype\<close>, else \<^verbatim>\<open>undefined\<close> (\<open>None\<close>).
\<close>

definition analyzerPrompt :: string where
  "analyzerPrompt =
     ''You are an Analysis Agent. Your job is to analyze research findings and extract key insights.\<newline>'' @
     ''When given research findings, identify the 3 most important insights.\<newline>'' @
     ''For each insight, explain why it matters and what implications it has.\<newline>'' @
     ''Format your response with bold insight headers and clear explanations.''"

definition writerPrompt :: string where
  "writerPrompt =
     ''You are a Writer Agent. Your job is to synthesize analysis into professional reports.\<newline>'' @
     ''When given an analysis, write a concise 3-4 paragraph report that:\<newline>'' @
     ''- Opens with a strong summary statement\<newline>'' @
     ''- Presents the key findings in a logical flow\<newline>'' @
     ''- Discusses implications and challenges\<newline>'' @
     ''- Concludes with forward-looking perspective\<newline>'' @
     ''Write in a professional, clear style suitable for business readers.''"

definition agentPrompts :: "string \<Rightarrow> json option" where
  "agentPrompts agentType =
     (if agentType = ''researcher'' then Some (JString
        (''You are a Research Agent with access to tools. Your job is to search for and gather information about topics.\<newline>'' @
         ''When given a topic, USE YOUR TOOLS to search for current information.\<newline>'' @
         ''After gathering information, provide 3-4 key findings with specific details.\<newline>'' @
         ''Always use the available search tools - do not make up information.''))
      else if agentType = ''analyzer'' then Some (JString analyzerPrompt)
      else if agentType = ''writer'' then Some (JString writerPrompt)
      else if agentType \<in> set objectPrototypeNames then Some (JInherited agentType)
      else None)"

text \<open>
  Lines 149 to 156, shared word for word by the three variants: the optional context
  (\<^verbatim>\<open>if (previousContext)\<close> holds for a non-empty string) as a user turn answered by
  a fixed assistant turn, then the user's message.
\<close>

definition acknowledgment :: string where
  "acknowledgment = ''I understand the context. Please provide your request.''"

definition seedMessages :: "string \<Rightarrow> string option \<Rightarrow> message list" where
  "seedMessages userMessage previousContext =
     (case previousContext of
        None \<Rightarrow> []
      | Some c \<Rightarrow>
          if c \<noteq> [] then [\<lparr> role = user, content = Str c \<rparr>,
                           \<lparr> role = assistant, content = Str acknowledgment \<rparr>]
          else [])
     @ [\<lparr> role = user, content = Str userMessage \<rparr>]"

text \<open>
  The call of \<^verbatim>\<open>anthropic.messages.create\<close> at lines 161 and 210:
  \<^verbatim>\<open>tools: tools.length > 0 ? tools : undefined\<close>.
\<close>

definition createMessage ::
  "('w, 'c) externals \<Rightarrow> json option \<Rightarrow> message list \<Rightarrow> anthropicTool list \<Rightarrow> 'w \<Rightarrow>
   (error + response) \<times> 'w" where
  "createMessage ext systemPrompt msgs tls w =
     messages_create ext
       \<lparr> model = ''claude-sonnet-4-20250514'',
         max_tokens = 4096,
         system = systemPrompt,
         messages = msgs,
         tools = (if length tls > 0 then Some tls else None) \<rparr> w"

text \<open>Lines 182 to 189: the text of a provider's answer.\<close>

definition extractText :: "mcpResult \<Rightarrow> string" where
  "extractText result =
     (case result_content result of
        None \<Rightarrow> []
      | Some items \<Rightarrow>
          fold (\<lambda>item textContent.
                  case item of TextItem t \<Rightarrow> textContent @ t | OtherItem j \<Rightarrow> textContent)
               items [])"

text \<open>
  Lines 178 to 204: the \<^verbatim>\<open>try\<close> and \<^verbatim>\<open>catch\<close> for one \<^verbatim>\<open>tool_use\<close> block.
  The success branch writes no \<^verbatim>\<open>is_error\<close> field;
  \<^verbatim>\<open>textContent || JSON.stringify(result)\<close> takes the serialization when the text
  is empty.
\<close>

definition answerToolUse ::
  "('w, 'c) externals \<Rightarrow> 'c state \<Rightarrow> string \<Rightarrow> string \<Rightarrow> json \<Rightarrow> 'w \<Rightarrow> block \<times> 'w" where
  "answerToolUse ext st tid tname tinput w =
     (case callMCPTool ext st tname tinput w of
        (Inr result, w1) \<Rightarrow>
          (let textContent = extractText result in
           (ToolResult tid
              (if textContent \<noteq> [] then textContent else JSON_stringify ext result) None,
            w1))
      | (Inl err, w1) \<Rightarrow>
          (ToolResult tid (''Error: '' @ message err) (Some True), w1))"

text \<open>Lines 174 to 206: the loop over \<^verbatim>\<open>response.content\<close> that fills \<^verbatim>\<open>toolResults\<close>.\<close>

fun dispatchTools ::
  "('w, 'c) externals \<Rightarrow> 'c state \<Rightarrow> block list \<Rightarrow> block list \<Rightarrow> 'w \<Rightarrow> block list \<times> 'w" where
  "dispatchTools ext st [] toolResults w = (toolResults, w)"
| "dispatchTools ext st (ToolUse tid tname tinput # rest) toolResults w =
     (case answerToolUse ext st tid tname tinput w of
        (r, w1) \<Rightarrow> dispatchTools ext st rest (toolResults @ [r]) w1)"
| "dispatchTools ext st (b # rest) toolResults w = dispatchTools ext st rest toolResults w"

text \<open>
  How a run of the agent ends: it returns, it rejects with an error, or the bound on
  the iterations of the \<^verbatim>\<open>while\<close> loop is used up (the source has no such bound; a run
  that is \<open>OutOfFuel\<close> for every bound never returns).
\<close>

datatype 'a outcome = Returned 'a | Raised error | OutOfFuel

text \<open>
  Lines 170 to 217. The loop runs while the stop reason is \<^verbatim>\<open>tool_use\<close>; an iteration
  pushes the assistant turn, dispatches, pushes one user turn with all results and
  asks the model again. The messages are returned with the outcome.
\<close>

fun toolUseLoop ::
  "nat \<Rightarrow> ('w, 'c) externals \<Rightarrow> 'c state \<Rightarrow> json option \<Rightarrow> anthropicTool list \<Rightarrow>
   response \<Rightarrow> message list \<Rightarrow> 'w \<Rightarrow> response outcome \<times> message list \<times> 'w" where
  "toolUseLoop 0 ext st systemPrompt tls resp msgs w =
     (if stop_reason resp = ''tool_use'' then (OutOfFuel, msgs, w)
      else (Returned resp, msgs, w))"
| "toolUseLoop (Suc fuel) ext st systemPrompt tls resp msgs w =
     (if stop_reason resp = ''tool_use'' then
        (let msgs1 = msgs @ [\<lparr> role = assistant, content = Blocks (resp_content resp) \<rparr>] in
         case dispatchTools ext st (resp_content resp) [] w of
           (toolResults, w1) \<Rightarrow>
             (let msgs2 = msgs1 @ [\<lparr> role = user, content = Blocks toolResults \<rparr>] in
              case createMessage ext systemPrompt msgs2 tls w1 of
                (Inl err, w2) \<Rightarrow> (Raised err, msgs2, w2)
              | (Inr resp', w2) \<Rightarrow> toolUseLoop fuel ext st systemPrompt tls resp' msgs2 w2))
      else (Returned resp, msgs, w))"

text \<open>\<^verbatim>\<open>xs.join(sep)\<close> and lines 219 to 222 (filter the text blocks, map to their text, join).\<close>

fun join :: "string \<Rightarrow> string list \<Rightarrow> string" where
  "join sep [] = []"
| "join sep [x] = x"
| "join sep (x # y # ys) = x @ sep @ join sep (y # ys)"

fun textOf :: "block \<Rightarrow> string option" where
  "textOf (Text t) = Some t"
| "textOf b = None"

definition finalText :: "block list \<Rightarrow> string" where
  "finalText blocks = join ''\<newline>'' (List.map_filter textOf blocks)"

text \<open>\<^verbatim>\<open>callClaudeAgent\<close> of \<^verbatim>\<open>server.js\<close>, lines 147 to 223.\<close>

definition callClaudeAgent ::
  "nat \<Rightarrow> ('w, 'c) externals \<Rightarrow> 'c state \<Rightarrow> string \<Rightarrow> string \<Rightarrow> string option \<Rightarrow> 'w \<Rightarrow>
   string outcome \<times> message list \<times> 'w" where
  "callClaudeAgent fuel ext st agentType userMessage previousContext w =
     (let systemPrompt = agentPrompts agentType;
          msgs = seedMessages userMessage previousContext;
          tls = (if agentType = ''researcher'' then getAnthropicTools st else [])
      in case createMessage ext systemPrompt msgs tls w of
           (Inl err, w1) \<Rightarrow> (Raised err, msgs, w1)
         | (Inr resp, w1) \<Rightarrow>
             (case toolUseLoop fuel ext st systemPrompt tls resp msgs w1 of
                (Returned final, msgs', w2) \<Rightarrow> (Returned (finalText (resp_content final)), msgs', w2)
              | (Raised err, msgs', w2) \<Rightarrow> (Raised err, msgs', w2)
              | (OutOfFuel, msgs', w2) \<Rightarrow> (OutOfFuel, msgs', w2)))"

section \<open>The serverless variants\<close>

text \<open>
  \<^verbatim>\<open>api/agent.js\<close>: its own prompt table (lines 9 to 26), one model call without a
  \<^verbatim>\<open>tools\<close> field and no loop (lines 28 to 50).
\<close>

definition agentPrompts_api :: "string \<Rightarrow> json option" where
  "agentPrompts_api agentType =
     (if agentType = ''researcher'' then Some (JString
        (''You are a Research Agent. Your job is to search for and gather information about topics.\<newline>'' @
         ''When given a topic, provide 3-4 key findings with specific details based on your knowledge.\<newline>'' @
         ''Focus on recent developments and important facts.''))
      else if agentType = ''analyzer'' then Some (JString
        (''You are an Analysis Agent. Your job is to analyze research findings and extract key insights.\<newline>'' @
         ''When given research findings, identify the 3 most important insights.\<newline>'' @
         ''For each insight, explain why it matters and what implications it has.\<newline>'' @
         ''Format your response with bold insight headers and clear explanations.''))
      else if agentType = ''writer'' then Some (JString
        (''You are a Writer Agent. Your job is to synthesize analysis into professional reports.\<newline>'' @
         ''When given an analysis, write a concise 3-4 paragraph report that:\<newline>'' @
         ''- Opens with a strong summary statement\<newline>'' @
         ''- Presents the key findings in a logical flow\<newline>'' @
         ''- Discusses implications and challenges\<newline>'' @
         ''- Concludes with forward-looking perspective\<newline>'' @
         ''Write in a professional, clear style suitable for business readers.''))
      else if agentType \<in> set objectPrototypeNames then Some (JInherited agentType)
      else None)"

definition createPlain ::
  "('w, 'c) externals \<Rightarrow> json option \<Rightarrow> message list \<Rightarrow> 'w \<Rightarrow> (error + response) \<times> 'w" where
  "createPlain ext systemPrompt msgs w =
     messages_create ext
       \<lparr> model = ''claude-sonnet-4-20250514'',
         max_tokens = 4096,
         system = systemPrompt,
         messages = msgs,
         tools = None \<rparr> w"

definition callClaudeAgent_api ::
  "('w, 'c) externals \<Rightarrow> string \<Rightarrow> string \<Rightarrow> string option \<Rightarrow> 'w \<Rightarrow>
   string outcome \<times> message list \<times> 'w" where
  "callClaudeAgent_api ext agentType userMessage previousContext w =
     (let systemPrompt = agentPrompts_api agentType;
          msgs = seedMessages userMessage previousContext
      in case createPlain ext systemPrompt msgs w of
           (Inl err, w1) \<Rightarrow> (Raised err, msgs, w1)
         | (Inr resp, w1) \<Rightarrow> (Returned (finalText (resp_content resp)), msgs, w1))"

text \<open>
  The variant with a web search (\<^verbatim>\<open>unnamed/part_000\<close>). Its \<^verbatim>\<open>braveSearch\<close>
  (lines 9 to 43) is an HTTP request that answers \<^verbatim>\<open>null\<close> or a list of results; it
  is a parameter here. Only the researcher calls it.
\<close>

record searchResult =
  title :: string
  sr_description :: string
  url :: string

definition agentPrompts_search :: "string \<Rightarrow> json option" where
  "agentPrompts_search agentType =
     (if agentType = ''researcher'' then Some (JString
        (''You are a Research Agent with access to real-time web search results. Your job is to analyze the search results provided and gather key information about topics.\<newline>'' @
         ''When given search results, synthesize them into 3-4 key findings with specific details.\<newline>'' @
         ''Always cite your sources by mentioning where the information came from.\<newline>'' @
         ''Focus on the most recent and relevant information from the search results.''))
      else if agentType = ''analyzer'' then Some (JString
        (''You are an Analysis Agent. Your job is to analyze research findings and extract key insights.\<newline>'' @
         ''When given research findings, identify the 3 most important insights.\<newline>'' @
         ''For each insight, explain why it matters and what implications it has.\<newline>'' @
         ''Format your response with bold insight headers and clear explanations.''))
      else if agentType = ''writer'' then Some (JString
        (''You are a Writer Agent. Your job is to synthesize analysis into professional reports.\<newline>'' @
         ''When given an analysis, write a concise 3-4 paragraph report that:\<newline>'' @
         ''- Opens with a strong summary statement\<newline>'' @
         ''- Presents the key findings in a logical flow\<newline>'' @
         ''- Discusses implications and challenges\<newline>'' @
         ''- Concludes with forward-looking perspective\<newline>'' @
         ''Write in a professional, clear style suitable for business readers.''))
      else if agentType \<in> set objectPrototypeNames then Some (JInherited agentType)
      else None)"

text \<open>A number in a template string.\<close>

fun decimal :: "nat \<Rightarrow> string" where
  "decimal n =
     (if n < 10 then [''0123456789'' ! n]
      else decimal (n div 10) @ [''0123456789'' ! (n mod 10)])"

declare decimal.simps [simp del]

text \<open>Lines 75 to 79: the numbered search results and the message built around them.\<close>

fun searchLines :: "nat \<Rightarrow> searchResult list \<Rightarrow> string list" where
  "searchLines i [] = []"
| "searchLines i (r # rs) =
     (''['' @ decimal (i + 1) @ ''] '' @ title r @ ''\<newline>'' @ sr_description r @
      ''\<newline>Source: '' @ url r) # searchLines (i + 1) rs"

definition enrich :: "string \<Rightarrow> searchResult list \<Rightarrow> string" where
  "enrich userMessage searchResults =
     (let searchContext = join ''\<newline>\<newline>'' (searchLines 0 searchResults) in
      ''Search query: '' @ [CHR 0x22] @ userMessage @ [CHR 0x22] @
      ''\<newline>\<newline>Web search results:\<newline>'' @ searchContext @
      ''\<newline>\<newline>Please analyze these search results and provide key findings about: '' @
      userMessage)"

definition callClaudeAgent_search ::
  "('w, 'c) externals \<Rightarrow> (string \<Rightarrow> 'w \<Rightarrow> searchResult list option \<times> 'w) \<Rightarrow>
   string \<Rightarrow> string \<Rightarrow> string option \<Rightarrow> 'w \<Rightarrow> string outcome \<times> message list \<times> 'w" where
  "callClaudeAgent_search ext braveSearch agentType userMessage previousContext w =
     (let systemPrompt = agentPrompts_search agentType;
          (enrichedMessage, w0) =
            (if agentType = ''researcher'' then
               (case braveSearch userMessage w of
                  (Some searchResults, w') \<Rightarrow>
                    (if length searchResults > 0 then enrich userMessage searchResults
                     else userMessage, w')
                | (None, w') \<Rightarrow> (userMessage, w'))
             else (userMessage, w));
          msgs = seedMessages enrichedMessage previousContext
      in case createPlain ext systemPrompt msgs w0 of
           (Inl err, w1) \<Rightarrow> (Raised err, msgs, w1)
         | (Inr resp, w1) \<Rightarrow> (Returned (finalText (resp_content resp)), msgs, w1))"

section \<open>Observing the calls\<close>

text \<open>
  To speak about what the program passes to its collaborators, \<open>traced ext\<close> is
  \<open>ext\<close> with a log beside the world: every call is answered as \<open>ext\<close> answers it
  and is written at the end of the log with its arguments, a model call also with its
  answer and the world it leaves.
\<close>

datatype ('w, 'c) call =
    Connect transport
  | ListTools 'c
  | CallTool 'c string json
  | Create request "error + response" 'w

definition traced :: "('w, 'c) externals \<Rightarrow> ('w \<times> ('w, 'c) call list, 'c) externals" where
  "traced ext =
     \<lparr> connect = (\<lambda>t (w, log). case connect ext t w of (r, w') \<Rightarrow> (r, (w', log @ [Connect t]))),
       listTools = (\<lambda>c (w, log). case listTools ext c w of (r, w') \<Rightarrow> (r, (w', log @ [ListTools c]))),
       callTool = (\<lambda>c n a (w, log).
          case callTool ext c n a w of (r, w') \<Rightarrow> (r, (w', log @ [CallTool c n a]))),
       messages_create = (\<lambda>req (w, log).
          case messages_create ext req w of (r, w') \<Rightarrow> (r, (w', log @ [Create req r w']))),
       JSON_stringify = JSON_stringify ext \<rparr>"

fun requestOf :: "('w, 'c) call \<Rightarrow> (request \<times> (error + response)) option" where
  "requestOf (Create req r w) = Some (req, r)"
| "requestOf c = None"

fun transportOf :: "('w, 'c) call \<Rightarrow> transport option" where
  "transportOf (Connect t) = Some t"
| "transportOf c = None"

definition modelCalls :: "('w, 'c) call list \<Rightarrow> (request \<times> (error + response)) list" where
  "modelCalls log = List.map_filter requestOf log"

definition connections :: "('w, 'c) call list \<Rightarrow> transport list" where
  "connections log = List.map_filter transportOf log"

section \<open>Stub collaborators for the examples\<close>

text \<open>
  A process environment, a configuration with four providers and collaborators to run
  them against. The world is the number of model calls made so far. Connecting fails
  for the command \<^verbatim>\<open>missing-binary\<close> and otherwise yields the command as the client;
  \<^verbatim>\<open>flaky-server\<close> connects and then fails to list its tools. The model asks for
  tools on its first call and answers on its second.
\<close>

definition stubEnv :: "(string \<times> string) list" where
  "stubEnv = [(''PATH'', ''/usr/bin''), (''SECRET'', ''abc''), (''BLANK'', '''')]"

definition stubServers :: "(string \<times> serverConfig) list" where
  "stubServers =
     [(''search'',
        \<lparr> command = JString ''search-server'',
          args = Some [JString ''--key'', JString ''$SECRET'', JString ''$UNSET'', JNumber 3],
          env = Some [(''API_KEY'', JString ''$SECRET''), (''PATH'', JString ''/opt/bin''),
                      (''OTHER'', JString ''$UNSET'')] \<rparr>),
      (''broken'', \<lparr> command = JString ''missing-binary'', args = None, env = None \<rparr>),
      (''flaky'', \<lparr> command = JString ''flaky-server'', args = Some [], env = None \<rparr>),
      (''files'', \<lparr> command = JString ''files-server'', args = None, env = Some [] \<rparr>)]"

definition stubTool :: "string \<Rightarrow> toolInfo" where
  "stubTool n = \<lparr> ti_name = n, ti_description = JString ''a tool'', ti_inputSchema = JObject [] \<rparr>"

definition stubConnect :: "transport \<Rightarrow> nat \<Rightarrow> (error + string) \<times> nat" where
  "stubConnect t w =
     (case t_command t of
        JString c \<Rightarrow>
          if c = ''missing-binary'' then (Inl (Error ''spawn missing-binary ENOENT''), w)
          else (Inr c, w)
      | _ \<Rightarrow> (Inl (Error ''The command must be a string''), w))"

definition stubListTools :: "string \<Rightarrow> nat \<Rightarrow> (error + toolInfo list) \<times> nat" where
  "stubListTools c w =
     (if c = ''search-server'' then (Inr [stubTool ''lookup'', stubTool ''news''], w)
      else if c = ''files-server'' then (Inr [stubTool ''lookup''], w)
      else if c = ''flaky-server'' then (Inl (Error ''Connection closed''), w)
      else if c = ''alpha'' then (Inr [stubTool ''b__c''], w)
      else if c = ''beta'' then (Inr [stubTool ''c''], w)
      else (Inr [], w))"

definition stubCallTool :: "string \<Rightarrow> string \<Rightarrow> json \<Rightarrow> nat \<Rightarrow> (error + mcpResult) \<times> nat" where
  "stubCallTool c n a w =
     (if c = ''search-server'' \<and> n = ''lookup'' then
        (Inr \<lparr> result_content = Some [TextItem ''first '', OtherItem JNull, TextItem ''second''],
               result_rest = [] \<rparr>, w)
      else if c = ''files-server'' then
        (Inr \<lparr> result_content = Some [TextItem ''''], result_rest = [] \<rparr>, w)
      else (Inl (Error ''rate limited''), w))"

definition stubToolUse :: response where
  "stubToolUse =
     \<lparr> stop_reason = ''tool_use'',
       resp_content =
         [Text ''Let me look this up.'',
          ToolUse ''t1'' ''search__lookup'' (JObject [(''q'', JString ''tides'')]),
          ToolUse ''t2'' ''search__news'' JNull,
          ToolUse ''t3'' ''nowhere__tool'' JNull] \<rparr>"

definition stubAnswer :: response where
  "stubAnswer =
     \<lparr> stop_reason = ''end_turn'',
       resp_content = [Text ''Finding one.'', OtherBlock JNull, Text ''Finding two.''] \<rparr>"

definition stubCreate :: "request \<Rightarrow> nat \<Rightarrow> (error + response) \<times> nat" where
  "stubCreate req w = (if w = 0 then (Inr stubToolUse, Suc w) else (Inr stubAnswer, Suc w))"

text \<open>
  The serialization the stub gives is the one \<^verbatim>\<open>JSON.stringify\<close> gives for the
  answer of \<^verbatim>\<open>files-server\<close>, an object with one empty text item.
\<close>

definition stubStringify :: "mcpResult \<Rightarrow> string" where
  "stubStringify r =
     ''{'' @ [CHR 0x22] @ ''content'' @ [CHR 0x22] @ '':[{'' @ [CHR 0x22] @ ''type'' @ [CHR 0x22] @
     '':'' @ [CHR 0x22] @ ''text'' @ [CHR 0x22] @ '','' @ [CHR 0x22] @ ''text'' @ [CHR 0x22] @
     '':'' @ [CHR 0x22, CHR 0x22] @ ''}]}''"

definition stubExt :: "(nat, string) externals" where
  "stubExt =
     \<lparr> connect = stubConnect,
       listTools = stubListTools,
       callTool = stubCallTool,
       messages_create = stubCreate,
       JSON_stringify = stubStringify \<rparr>"

text \<open>The registry after the stub configuration has been loaded.\<close>

definition stubState :: "string state" where
  "stubState = fst (initializeMCP stubExt stubEnv (Some stubServers) initialState 0)"

text \<open>A web search that finds nothing, for the examples of the variant with a search.\<close>

definition stubSearch :: "string \<Rightarrow> 'w \<Rightarrow> searchResult list option \<times> 'w" where
  "stubSearch query w = (None, w)"

text \<open>Two providers whose qualified tool names coincide.\<close>

definition clashingServers :: "(string \<times> serverConfig) list" where
  "clashingServers =
     [(''a'', \<lparr> command = JString ''alpha'', args = None, env = None \<rparr>),
      (''a__b'', \<lparr> command = JString ''beta'', args = None, env = None \<rparr>)]"

section \<open>Predicates of the properties\<close>

text \<open>
  What holds of the registry while it is built, \<open>S\<close> being the providers handled so
  far: the names are distinct, and every tool is the qualified form of a tool of one of
  those providers.
\<close>

definition registryOf :: "string set \<Rightarrow> 'c state \<Rightarrow> bool" where
  "registryOf S st \<longleftrightarrow>
     distinct (map name (mcpTools st)) \<and>
     (\<forall>t \<in> set (mcpTools st).
        serverName t \<in> S \<and> name t = qualifiedName (serverName t) (originalName t))"

text \<open>
  The identifier a block carries as a request for a tool, and as the answer to one.
  \<open>answers results blocks\<close>: the results are tool results, one for each tool request
  among the blocks, with that request's identifier, in the order of the requests.
\<close>

fun toolUseId :: "block \<Rightarrow> string option" where
  "toolUseId (ToolUse tid tname tinput) = Some tid"
| "toolUseId b = None"

fun toolResultId :: "block \<Rightarrow> string option" where
  "toolResultId (ToolResult tid c e) = Some tid"
| "toolResultId b = None"

definition answers :: "block list \<Rightarrow> block list \<Rightarrow> bool" where
  "answers results blocks \<longleftrightarrow>
     map toolResultId results = map Some (List.map_filter toolUseId blocks)"

text \<open>
  Two successive model calls: the first was answered with a request for tools, and the
  second was made with the messages of the first, then one assistant message holding
  that answer, then one user message holding results that answer its tool requests.
  \<open>chained\<close>: every two neighbours in a list of model calls are related so.
\<close>

definition follows ::
  "request \<times> (error + response) \<Rightarrow> request \<times> (error + response) \<Rightarrow> bool" where
  "follows a b \<longleftrightarrow>
     (\<exists>resp results.
        snd a = Inr resp \<and> stop_reason resp = ''tool_use'' \<and>
        messages (fst b) =
          messages (fst a) @
            [\<lparr> role = assistant, content = Blocks (resp_content resp) \<rparr>,
             \<lparr> role = user, content = Blocks results \<rparr>] \<and>
        answers results (resp_content resp))"

fun chained :: "(request \<times> (error + response)) list \<Rightarrow> bool" where
  "chained [] = True"
| "chained [a] = True"
| "chained (a # b # rest) = (follows a b \<and> chained (b # rest))"

text \<open>
  The text-typed segments of a provider's answer, and the reading of a block's
  \<^verbatim>\<open>is_error\<close> as a truth value (an absent field is not an error).
\<close>

fun textSegment :: "item \<Rightarrow> string option" where
  "textSegment (TextItem t) = Some t"
| "textSegment (OtherItem j) = None"

definition textSegments :: "mcpResult \<Rightarrow> string list" where
  "textSegments result =
     (case result_content result of None \<Rightarrow> [] | Some items \<Rightarrow> List.map_filter textSegment items)"

fun isError :: "block \<Rightarrow> bool" where
  "isError (ToolResult tid c e) = (e = Some True)"
| "isError b = False"

text \<open>
  The model calls of a log, each with its answer and the world it left.
  \<open>dispatched ext st a b\<close>, for two successive model calls: the first was answered
  with a request for tools, and the second was made with the messages of the first,
  then the assistant turn holding that answer, then one user turn holding what
  \<open>dispatchTools\<close> yields for the blocks of that answer in the world the answer left.
\<close>

fun createOf :: "('w, 'c) call \<Rightarrow> (request \<times> (error + response) \<times> 'w) option" where
  "createOf (Create req r w) = Some (req, r, w)"
| "createOf c = None"

definition answeredCalls :: "('w, 'c) call list \<Rightarrow> (request \<times> (error + response) \<times> 'w) list" where
  "answeredCalls log = List.map_filter createOf log"

definition dispatched ::
  "('w, 'c) externals \<Rightarrow> 'c state \<Rightarrow> request \<times> (error + response) \<times> 'w \<Rightarrow>
   request \<times> (error + response) \<times> 'w \<Rightarrow> bool" where
  "dispatched ext st a b \<longleftrightarrow>
     (case a of (req, r, w) \<Rightarrow>
        (case r of
           Inl e \<Rightarrow> False
         | Inr resp \<Rightarrow>
             stop_reason resp = ''tool_use'' \<and>
             messages (fst b) =
               messages req @
                 [\<lparr> role = assistant, content = Blocks (resp_content resp) \<rparr>,
                  \<lparr> role = user,
                    content = Blocks (fst (dispatchTools ext st (resp_content resp) [] w)) \<rparr>]))"

section \<open>Configuration values\<close>

lemma startsWith_marker: "startsWith s ''$'' \<longleftrightarrow> (\<exists>nm. s = CHR ''$'' # nm)"
  by (cases s) (auto simp: startsWith_def)

lemma resolveArg_marker:
  "resolveArg penv (JString (CHR ''$'' # nm)) = envOr penv nm (JString (CHR ''$'' # nm))"
  by (simp add: resolveArg_def startsWith_def slice1_def)

lemma resolveArg_plain:
  "\<not> startsWith s ''$'' \<Longrightarrow> resolveArg penv (JString s) = JString s"
  by (simp add: resolveArg_def)


lemma map_of_substituteEntry:
  "map_of (substituteEntry penv (k, v) en) k' =
     (if k' = k \<and> (\<exists>nm. v = JString (CHR ''$'' # nm)) then Some (resolveArg penv v) else map_of en k')"
  by (cases v) (auto simp: substituteEntry_def resolveArg_def Let_def update_conv' startsWith_marker)

lemma keys_substituteEntry:
  "fst ` set (substituteEntry penv e en) = fst ` set en \<or> fst ` set (substituteEntry penv e en) = insert (fst e) (fst ` set en)"
  by (cases e; cases "snd e") (auto simp: substituteEntry_def Let_def dom_update)

lemma map_of_fold_substitute:
  "distinct (map fst es) \<Longrightarrow>
   map_of (fold (substituteEntry penv) es en) k =
     (case map_of es k of
        None \<Rightarrow> map_of en k
      | Some v \<Rightarrow> if (\<exists>nm. v = JString (CHR ''$'' # nm)) then Some (resolveArg penv v) else map_of en k)"
proof (induction es arbitrary: en)
  case Nil
  then show ?case by simp
next
  case (Cons e es)
  obtain k0 v0 where e: "e = (k0, v0)" by (cases e)
  from Cons.prems e have d: "distinct (map fst es)" and n: "k0 \<notin> fst ` set es" by auto
  from n have none: "map_of es k0 = None" by (simp add: map_of_eq_None_iff)
  show ?case
    using Cons.IH [OF d, of "substituteEntry penv (k0, v0) en"] none
    by (auto simp: e map_of_substituteEntry split: option.splits)
qed

lemma resolveArg_other:
  "(\<nexists>nm. v = JString (CHR ''$'' # nm)) \<Longrightarrow> resolveArg penv v = v"
  by (cases v) (auto simp: resolveArg_def startsWith_marker)

lemma map_of_substitute_all:
  assumes "distinct (map fst en)"
  shows "map_of (fold (substituteEntry penv) en en) k = map_option (resolveArg penv) (map_of en k)"
  using map_of_fold_substitute [OF assms, of penv en k]
  by (auto split: option.splits simp: resolveArg_other)

lemma map_of_fold_update:
  "distinct (map fst b) \<Longrightarrow>
   map_of (fold (\<lambda>(k, v). AList.update k v) b a) k =
     (case map_of b k of None \<Rightarrow> map_of a k | Some v \<Rightarrow> Some v)"
proof (induction b arbitrary: a)
  case Nil
  then show ?case by simp
next
  case (Cons e b)
  obtain k0 v0 where e: "e = (k0, v0)" by (cases e)
  from Cons.prems e have d: "distinct (map fst b)" and n: "k0 \<notin> fst ` set b" by auto
  from n have none: "map_of b k0 = None" by (simp add: map_of_eq_None_iff)
  show ?case
    using Cons.IH [OF d, of "AList.update k0 v0 a"] none
    by (auto simp: e update_conv' split: option.splits)
qed

lemma distinct_fold_update:
  "distinct (map fst a) \<Longrightarrow> distinct (map fst (fold (\<lambda>(k, v). AList.update k v) b a))"
  by (induction b arbitrary: a) (auto simp: distinct_update)

lemma keys_fold_update:
  "fst ` set (fold (\<lambda>(k, v). AList.update k v) b a) = fst ` set a \<union> fst ` set b"
proof (induction b arbitrary: a)
  case Nil
  then show ?case by simp
next
  case (Cons e b)
  obtain k0 v0 where e: "e = (k0, v0)" by (cases e)
  show ?case using Cons.IH [of "AList.update k0 v0 a"]
    by (simp add: e dom_update)
qed

lemma keys_fold_substitute:
  "fst ` set es \<subseteq> fst ` set en \<Longrightarrow>
   fst ` set (fold (substituteEntry penv) es en) = fst ` set en"
proof (induction es arbitrary: en)
  case Nil
  then show ?case by simp
next
  case (Cons e es)
  obtain k0 v0 where e: "e = (k0, v0)" by (cases e)
  from Cons.prems e have k0: "k0 \<in> fst ` set en" by auto
  have same: "fst ` set (substituteEntry penv (k0, v0) en) = fst ` set en"
    using k0 by (cases v0) (auto simp: substituteEntry_def Let_def dom_update)
  show ?case
    using Cons.IH [of "substituteEntry penv (k0, v0) en"] Cons.prems
    by (simp add: e same)
qed

lemma map_of_resolveEnv:
  assumes "distinct (map fst penv)" and "distinct (map fst cfgEnv)"
  shows "map_of (resolveEnv penv cfgEnv) k =
           map_option (resolveArg penv)
             (case map_of cfgEnv k of
                None \<Rightarrow> map_option JString (map_of penv k)
              | Some v \<Rightarrow> Some v)"
proof -
  let ?p = "map (\<lambda>(k, v). (k, JString v)) penv"
  have fst: "map fst ?p = map fst penv" by (induction penv) auto
  have dp: "distinct (map fst ?p)" using assms(1) by (simp only: fst)
  have mp: "map_of ?p k = map_option JString (map_of penv k)"
    by (induction penv) auto
  have "distinct (map fst (spread ?p cfgEnv))"
    unfolding spread_def by (rule distinct_fold_update [OF dp])
  then show ?thesis
    by (simp add: resolveEnv_def Let_def map_of_substitute_all spread_def
        map_of_fold_update [OF assms(2)] mp cong: option.case_cong)
qed

lemma keys_resolveEnv:
  "fst ` set (resolveEnv penv cfgEnv) = fst ` set penv \<union> fst ` set cfgEnv"
proof -
  let ?p = "map (\<lambda>(k, v). (k, JString v)) penv"
  have "fst ` set ?p = fst ` set penv" by (induction penv) auto
  then show ?thesis
    by (simp add: resolveEnv_def Let_def keys_fold_substitute spread_def keys_fold_update)
qed


text \<open>
  C4, as stated, fails when the named variable is set to the empty string: the claim
  has the value substituted (here the empty string), the code keeps the literal, in
  \<open>env\<close> and in \<open>args\<close> alike.
\<close>

theorem substitution_empty_variable_counterexample:
  "map_of [(''SECRET'', [] :: string)] ''SECRET'' = Some ([] :: string) \<and>
   map_of (t_env (resolveTransport [(''SECRET'', [] :: string)]
       \<lparr> command = JString ''srv'', args = Some [JString ''$SECRET''],
         env = Some [(''API_KEY'', JString ''$SECRET'')] \<rparr>)) ''API_KEY''
     \<noteq> Some (JString []) \<and>
   t_args (resolveTransport [(''SECRET'', [] :: string)]
       \<lparr> command = JString ''srv'', args = Some [JString ''$SECRET''],
         env = Some [(''API_KEY'', JString ''$SECRET'')] \<rparr>) ! 0
     \<noteq> JString []"
  by code_simp

text \<open>
  A marker followed by the name of an inherited property, with no variable of that
  name: the read yields the inherited property, and that, not the literal, is handed
  over.
\<close>

lemma inherited_name_is_read:
  "resolveArg [] (JString ''$constructor'') = JInherited ''constructor''"
  by code_simp

text \<open>
  C4 (amended). A configured \<open>env\<close> value or \<open>args\<close> element \<open>$nm\<close> is replaced in
  the resolved connection configuration by the value of the process environment
  variable \<open>nm\<close> when that variable is set to a non-empty string. The literal \<open>$nm\<close>
  passes through unchanged when the variable is set to the empty string, and when it
  is undefined and \<open>nm\<close> is not the name of a property that \<^verbatim>\<open>process.env\<close>
  inherits from \<^verbatim>\<open>Object.prototype\<close>.
\<close>

theorem marker_substitution:
  assumes "distinct (map fst penv)"
      and "distinct (map fst (orEmpty (env cfg)))"
      and "map_of penv nm = None \<longrightarrow> nm \<notin> set objectPrototypeNames"
  shows "(map_of (orEmpty (env cfg)) key = Some (JString (CHR ''$'' # nm)) \<longrightarrow>
            map_of (t_env (resolveTransport penv cfg)) key =
              Some (case map_of penv nm of
                      None \<Rightarrow> JString (CHR ''$'' # nm)
                    | Some v \<Rightarrow> if v = [] then JString (CHR ''$'' # nm) else JString v))
       \<and> (i < length (orEmpty (args cfg)) \<and> orEmpty (args cfg) ! i = JString (CHR ''$'' # nm) \<longrightarrow>
            t_args (resolveTransport penv cfg) ! i =
              (case map_of penv nm of
                 None \<Rightarrow> JString (CHR ''$'' # nm)
               | Some v \<Rightarrow> if v = [] then JString (CHR ''$'' # nm) else JString v))"
proof -
  have r: "resolveArg penv (JString (CHR ''$'' # nm)) =
             (case map_of penv nm of
                None \<Rightarrow> JString (CHR ''$'' # nm)
              | Some v \<Rightarrow> if v = [] then JString (CHR ''$'' # nm) else JString v)"
    using assms(3) by (simp add: resolveArg_marker envOr_def processEnv_def split: option.splits)
  have e: "map_of (orEmpty (env cfg)) key = Some (JString (CHR ''$'' # nm)) \<Longrightarrow>
           map_of (t_env (resolveTransport penv cfg)) key =
             Some (resolveArg penv (JString (CHR ''$'' # nm)))"
    by (simp add: resolveTransport_def map_of_resolveEnv [OF assms(1,2)])
  have a: "i < length (orEmpty (args cfg)) \<Longrightarrow> orEmpty (args cfg) ! i = JString (CHR ''$'' # nm) \<Longrightarrow>
           t_args (resolveTransport penv cfg) ! i = resolveArg penv (JString (CHR ''$'' # nm))"
    by (simp add: resolveTransport_def)
  from e a show ?thesis unfolding r by blast
qed

text \<open>
  The examples of C4: \<open>env = { API_KEY: "$SECRET" }\<close> resolves to \<open>abc\<close> when
  \<open>SECRET=abc\<close> and to the literal when \<open>SECRET\<close> is unset.
\<close>

theorem marker_substitution_witness:
  "distinct (map fst [(''SECRET'', ''abc'')]) \<and>
   map_of (t_env (resolveTransport [(''SECRET'', ''abc'')]
       \<lparr> command = JString ''srv'', args = Some [JString ''$SECRET''],
         env = Some [(''API_KEY'', JString ''$SECRET'')] \<rparr>)) ''API_KEY'' = Some (JString ''abc'') \<and>
   t_args (resolveTransport [(''SECRET'', ''abc'')]
       \<lparr> command = JString ''srv'', args = Some [JString ''$SECRET''],
         env = Some [(''API_KEY'', JString ''$SECRET'')] \<rparr>) ! 0 = JString ''abc'' \<and>
   map_of (t_env (resolveTransport []
       \<lparr> command = JString ''srv'', args = Some [JString ''$SECRET''],
         env = Some [(''API_KEY'', JString ''$SECRET'')] \<rparr>)) ''API_KEY'' = Some (JString ''$SECRET'')"
proof -
  have run:
  "distinct (map fst [(''SECRET'', ''abc'')]) \<and>
   map_of (t_env (resolveTransport [(''SECRET'', ''abc'')]
       \<lparr> command = JString ''srv'', args = Some [JString ''$SECRET''],
         env = Some [(''API_KEY'', JString ''$SECRET'')] \<rparr>)) ''API_KEY'' = Some (JString ''abc'') \<and>
   t_args (resolveTransport [(''SECRET'', ''abc'')]
       \<lparr> command = JString ''srv'', args = Some [JString ''$SECRET''],
         env = Some [(''API_KEY'', JString ''$SECRET'')] \<rparr>) ! 0 = JString ''abc'' \<and>
   map_of (t_env (resolveTransport []
       \<lparr> command = JString ''srv'', args = Some [JString ''$SECRET''],
         env = Some [(''API_KEY'', JString ''$SECRET'')] \<rparr>)) ''API_KEY'' = Some (JString ''$SECRET'')"
    by code_simp
  have unset: "''SECRET'' \<notin> set objectPrototypeNames"
    by (simp add: objectPrototypeNames_def)
  from run unset
    marker_substitution [of "[(''SECRET'', ''abc'')]"
      "\<lparr> command = JString ''srv'', args = Some [JString ''$SECRET''],
         env = Some [(''API_KEY'', JString ''$SECRET'')] \<rparr>" "''API_KEY''" "''SECRET''" 0]
    marker_substitution [of "[]"
      "\<lparr> command = JString ''srv'', args = Some [JString ''$SECRET''],
         env = Some [(''API_KEY'', JString ''$SECRET'')] \<rparr>" "''API_KEY''" "''SECRET''" 0]
  show ?thesis by (simp add: orEmpty_def)
qed


section \<open>Calls made while the registry is built\<close>

lemma traced_simps:
  "connect (traced ext) t (w, log) =
     (case connect ext t w of (r, w') \<Rightarrow> (r, (w', log @ [Connect t])))"
  "listTools (traced ext) c (w, log) =
     (case listTools ext c w of (r, w') \<Rightarrow> (r, (w', log @ [ListTools c])))"
  "callTool (traced ext) c n a (w, log) =
     (case callTool ext c n a w of (r, w') \<Rightarrow> (r, (w', log @ [CallTool c n a])))"
  "messages_create (traced ext) req (w, log) =
     (case messages_create ext req w of (r, w') \<Rightarrow> (r, (w', log @ [Create req r w'])))"
  "JSON_stringify (traced ext) = JSON_stringify ext"
  by (simp_all add: traced_def)

lemma connections_append: "connections (xs @ ys) = connections xs @ connections ys"
  by (simp add: connections_def map_filter_def)

lemma connections_simps:
  "connections [] = []"
  "connections (Connect t # xs) = t # connections xs"
  "connections (ListTools c # xs) = connections xs"
  "connections (CallTool c n a # xs) = connections xs"
  "connections (Create req r v # xs) = connections xs"
  by (simp_all add: connections_def map_filter_def)

lemma connectServer_connections:
  "connectServer (traced ext) penv srv cfg st (w, log) = (r, st', (w', log')) \<Longrightarrow>
   connections log' = connections log @ [resolveTransport penv cfg]"
  by (auto simp: connectServer_def traced_simps Let_def connections_append connections_simps
      split: prod.splits sum.splits)

lemma initializeServers_connections:
  "initializeServers (traced ext) penv servers st (w, log) = (st', (w', log')) \<Longrightarrow>
   connections log' = connections log @ map (\<lambda>(srv, cfg). resolveTransport penv cfg) servers"
proof (induction servers arbitrary: st w log)
  case Nil
  then show ?case by simp
next
  case (Cons e servers)
  obtain srv cfg where e: "e = (srv, cfg)" by (cases e)
  obtain r st1 w1 log1 where c: "connectServer (traced ext) penv srv cfg st (w, log) = (r, st1, (w1, log1))"
    by (metis prod.exhaust)
  note l1 = connectServer_connections [OF c]
  show ?case
  proof (cases r)
    case (Inl err)
    with Cons.prems c e have
      "initializeServers (traced ext) penv servers
         (st1\<lparr> console_error := console_error st1 @ [failureLine srv err] \<rparr>) (w1, log1) = (st', (w', log'))"
      by simp
    from Cons.IH [OF this] l1 show ?thesis by (simp add: e)
  next
    case (Inr u)
    with Cons.prems c e have
      "initializeServers (traced ext) penv servers st1 (w1, log1) = (st', (w', log'))"
      by simp
    from Cons.IH [OF this] l1 show ?thesis by (simp add: e)
  qed
qed


text \<open>
  C9. While the registry is built, \<open>connect\<close> is called once for every configured
  provider, in order, with the transport resolved from its configuration. The \<open>env\<close>
  of that transport has every variable of the process environment among its keys: it
  is the process environment, overridden by the configured entries on equal keys, with
  the marker substitution applied to every value, and not the configured mapping alone.
\<close>

theorem provider_environment:
  assumes "distinct (map fst penv)"
  shows "connections (snd (snd (initializeMCP (traced ext) penv (Some servers) st (w, [])))) =
           map (\<lambda>(srv, cfg). resolveTransport penv cfg) servers
       \<and> (\<forall>(srv, cfg) \<in> set servers.
            fst ` set penv \<subseteq> fst ` set (t_env (resolveTransport penv cfg)) \<and>
            (distinct (map fst (orEmpty (env cfg))) \<longrightarrow>
               (\<forall>k. map_of (t_env (resolveTransport penv cfg)) k =
                    map_option (resolveArg penv)
                      (case map_of (orEmpty (env cfg)) k of
                         None \<Rightarrow> map_option JString (map_of penv k)
                       | Some v \<Rightarrow> Some v))))"
proof -
  obtain st' w' log where
    run: "initializeServers (traced ext) penv servers st (w, []) = (st', (w', log))"
    by (metis prod.exhaust)
  have "connections log = map (\<lambda>(srv, cfg). resolveTransport penv cfg) servers"
    using initializeServers_connections [OF run] by (simp add: connections_simps)
  then have calls: "connections (snd (snd (initializeMCP (traced ext) penv (Some servers) st (w, [])))) =
           map (\<lambda>(srv, cfg). resolveTransport penv cfg) servers"
    by (simp add: initializeMCP_def orEmpty_def run)
  have keys: "fst ` set penv \<subseteq> fst ` set (t_env (resolveTransport penv cfg))" for cfg
    by (simp add: resolveTransport_def keys_resolveEnv)
  have vals: "distinct (map fst (orEmpty (env cfg))) \<Longrightarrow>
        map_of (t_env (resolveTransport penv cfg)) k =
          map_option (resolveArg penv)
            (case map_of (orEmpty (env cfg)) k of
               None \<Rightarrow> map_option JString (map_of penv k)
             | Some v \<Rightarrow> Some v)" for cfg k
    by (simp add: resolveTransport_def map_of_resolveEnv [OF assms])
  from calls keys vals show ?thesis by blast
qed

text \<open>
  The four stub providers: each is handed \<open>PATH\<close>, \<open>SECRET\<close> and \<open>BLANK\<close> of the
  process, also the three that configure no \<open>env\<close> of their own.
\<close>

theorem provider_environment_witness:
  "distinct (map fst stubEnv) \<and>
   map t_env (connections (snd (snd
       (initializeMCP (traced stubExt) stubEnv (Some stubServers) initialState (0, []))))) =
     [[(''PATH'', JString ''/opt/bin''), (''SECRET'', JString ''abc''), (''BLANK'', JString []),
       (''API_KEY'', JString ''abc''), (''OTHER'', JString ''$UNSET'')],
      [(''PATH'', JString ''/usr/bin''), (''SECRET'', JString ''abc''), (''BLANK'', JString [])],
      [(''PATH'', JString ''/usr/bin''), (''SECRET'', JString ''abc''), (''BLANK'', JString [])],
      [(''PATH'', JString ''/usr/bin''), (''SECRET'', JString ''abc''), (''BLANK'', JString [])]]"
proof -
  have d: "distinct (map fst stubEnv)" by (simp add: stubEnv_def)
  have "map t_env (map (\<lambda>(srv, cfg). resolveTransport stubEnv cfg) stubServers) =
     [[(''PATH'', JString ''/opt/bin''), (''SECRET'', JString ''abc''), (''BLANK'', JString []),
       (''API_KEY'', JString ''abc''), (''OTHER'', JString ''$UNSET'')],
      [(''PATH'', JString ''/usr/bin''), (''SECRET'', JString ''abc''), (''BLANK'', JString [])],
      [(''PATH'', JString ''/usr/bin''), (''SECRET'', JString ''abc''), (''BLANK'', JString [])],
      [(''PATH'', JString ''/usr/bin''), (''SECRET'', JString ''abc''), (''BLANK'', JString [])]]"
    by code_simp
  with d provider_environment [OF d, of stubExt stubServers initialState 0]
  show ?thesis by simp
qed

section \<open>Names in the registry\<close>

lemma separator_split:
  assumes "p1 = p2 @ us" and "us @ ''__'' @ l1 = ''__'' @ l2"
      and "\<not> sublist ''__'' p1" and "\<not> suffix ''_'' p1"
  shows "us = []"
proof (cases us)
  case Nil
  then show ?thesis .
next
  case (Cons c us')
  with assms(2) have c: "c = CHR ''_''" by simp
  show ?thesis
  proof (cases us')
    case Nil
    with Cons c assms(1) have "p1 = p2 @ ''_''" by simp
    then have "suffix ''_'' p1" by (simp add: suffix_def)
    with assms(4) show ?thesis by contradiction
  next
    case (Cons d us'')
    with \<open>us = c # us'\<close> assms(2) have d: "d = CHR ''_''" by simp
    from Cons \<open>us = c # us'\<close> c d assms(1) have "p1 = p2 @ ''__'' @ us''" by simp
    then have "sublist ''__'' p1" unfolding sublist_def by blast
    with assms(3) show ?thesis by contradiction
  qed
qed

lemma qualifiedName_inject:
  assumes eq: "qualifiedName p1 l1 = qualifiedName p2 l2"
      and p1: "\<not> sublist ''__'' p1" "\<not> suffix ''_'' p1"
      and p2: "\<not> sublist ''__'' p2" "\<not> suffix ''_'' p2"
  shows "p1 = p2 \<and> l1 = l2"
proof -
  from eq have "p1 @ (''__'' @ l1) = p2 @ (''__'' @ l2)" by (simp add: qualifiedName_def)
  then obtain us where
    "(p1 = p2 @ us \<and> us @ ''__'' @ l1 = ''__'' @ l2) \<or> (p1 @ us = p2 \<and> ''__'' @ l1 = us @ ''__'' @ l2)"
    unfolding append_eq_append_conv2 by blast
  then show ?thesis
  proof
    assume a: "p1 = p2 @ us \<and> us @ ''__'' @ l1 = ''__'' @ l2"
    then have "us = []" using separator_split p1 by blast
    with a show ?thesis by simp
  next
    assume a: "p1 @ us = p2 \<and> ''__'' @ l1 = us @ ''__'' @ l2"
    then have "us = []" using separator_split [of p2 p1 us l2 l1] p2 by metis
    with a show ?thesis by simp
  qed
qed

lemma qualifiedName_same_server: "qualifiedName p l1 = qualifiedName p l2 \<longleftrightarrow> l1 = l2"
  by (simp add: qualifiedName_def)

lemma registryOf_mono: "registryOf S st \<Longrightarrow> S \<subseteq> S' \<Longrightarrow> registryOf S' st"
  by (auto simp: registryOf_def)

lemma connectServer_registry:
  assumes run: "connectServer ext penv srv cfg st w = (r, st', w')"
      and inv: "registryOf S st"
      and new: "srv \<notin> S"
      and safe: "\<forall>p \<in> insert srv S. \<not> sublist ''__'' p \<and> \<not> suffix ''_'' p"
      and lists: "\<forall>c w ts w'. listTools ext c w = (Inr ts, w') \<longrightarrow> distinct (map ti_name ts)"
  shows "registryOf (insert srv S) st'"
proof (cases "connect ext (resolveTransport penv cfg) w")
  case (Pair a w1)
  show ?thesis
  proof (cases a)
    case (Inl err)
    with Pair run have "st' = st" by (simp add: connectServer_def)
    with inv show ?thesis by (auto simp: registryOf_def)
  next
    case (Inr client)
    show ?thesis
    proof (cases "listTools ext client w1")
      case (Pair b w2)
      show ?thesis
      proof (cases b)
        case (Inl err)
        with Pair \<open>connect ext (resolveTransport penv cfg) w = (a, w1)\<close> Inr run
        have "mcpTools st' = mcpTools st" by (auto simp: connectServer_def Let_def)
        with inv show ?thesis by (auto simp: registryOf_def)
      next
        case (Inr ts)
        with Pair \<open>connect ext (resolveTransport penv cfg) w = (a, w1)\<close> \<open>a = Inr client\<close> run
        have tools: "mcpTools st' = mcpTools st @ map (registerTool srv) ts"
          by (auto simp: connectServer_def Let_def)
        from lists Pair Inr have dts: "distinct (map ti_name ts)" by blast
        have names: "map name (map (registerTool srv) ts) = map (qualifiedName srv) (map ti_name ts)"
          by (simp add: registerTool_def)
        have inj: "\<forall>x y. qualifiedName srv x = qualifiedName srv y \<longrightarrow> x = y"
          by (simp add: qualifiedName_same_server)
        have dnew: "distinct (map name (map (registerTool srv) ts))"
          unfolding names using dts inj by (simp add: distinct_map inj_on_def)
        have disj: "set (map name (mcpTools st)) \<inter> set (map name (map (registerTool srv) ts)) = {}"
        proof (rule ccontr)
          assume "\<not> ?thesis"
          then obtain t ti where t: "t \<in> set (mcpTools st)" and ti: "ti \<in> set ts"
            and eq: "name t = name (registerTool srv ti)" by auto
          from inv t have ts: "serverName t \<in> S" and nt: "name t = qualifiedName (serverName t) (originalName t)"
            by (auto simp: registryOf_def)
          from eq nt have "qualifiedName (serverName t) (originalName t) = qualifiedName srv (ti_name ti)"
            by (simp add: registerTool_def)
          with safe ts have "serverName t = srv"
            using qualifiedName_inject [of "serverName t" "originalName t" srv "ti_name ti"] by blast
          with ts new show False by simp
        qed
        have d: "distinct (map name (mcpTools st'))"
          using inv dnew disj unfolding tools by (simp add: registryOf_def)
        have m: "\<forall>t \<in> set (mcpTools st'). serverName t \<in> insert srv S \<and>
                   name t = qualifiedName (serverName t) (originalName t)"
          using inv unfolding tools by (auto simp: registryOf_def registerTool_def)
        from d m show ?thesis by (simp add: registryOf_def)
      qed
    qed
  qed
qed

lemma registryOf_console:
  "registryOf S (st\<lparr> console_error := l \<rparr>) = registryOf S st"
  by (simp add: registryOf_def)

lemma initializeServers_registry:
  assumes "initializeServers ext penv servers st w = (st', w')"
      and "registryOf S st"
      and "distinct (map fst servers)"
      and "S \<inter> fst ` set servers = {}"
      and "\<forall>p \<in> S \<union> fst ` set servers. \<not> sublist ''__'' p \<and> \<not> suffix ''_'' p"
      and "\<forall>c w ts w'. listTools ext c w = (Inr ts, w') \<longrightarrow> distinct (map ti_name ts)"
  shows "registryOf (S \<union> fst ` set servers) st'"
  using assms
proof (induction servers arbitrary: st w S)
  case Nil
  then show ?case by simp
next
  case (Cons e servers)
  obtain srv cfg where e: "e = (srv, cfg)" by (cases e)
  obtain r st1 w1 where c: "connectServer ext penv srv cfg st w = (r, st1, w1)"
    by (metis prod.exhaust)
  from Cons.prems e have new: "srv \<notin> S" by auto
  from Cons.prems e have safe1: "\<forall>p \<in> insert srv S. \<not> sublist ''__'' p \<and> \<not> suffix ''_'' p" by auto
  have r1: "registryOf (insert srv S) st1"
    by (rule connectServer_registry [OF c Cons.prems(2) new safe1 Cons.prems(6)])
  from Cons.prems e have d: "distinct (map fst servers)"
    and dis: "insert srv S \<inter> fst ` set servers = {}"
    and safe: "\<forall>p \<in> insert srv S \<union> fst ` set servers. \<not> sublist ''__'' p \<and> \<not> suffix ''_'' p"
    by auto
  have u: "insert srv S \<union> fst ` set servers = S \<union> fst ` set (e # servers)"
    by (auto simp: e)
  show ?case
  proof (cases r)
    case (Inl err)
    with Cons.prems(1) c e have run:
      "initializeServers ext penv servers
         (st1\<lparr> console_error := console_error st1 @ [failureLine srv err] \<rparr>) w1 = (st', w')"
      by simp
    from r1 have r1': "registryOf (insert srv S)
         (st1\<lparr> console_error := console_error st1 @ [failureLine srv err] \<rparr>)"
      by (simp add: registryOf_console)
    from Cons.IH [OF run r1' d dis safe Cons.prems(6)] show ?thesis by (simp only: u)
  next
    case (Inr x)
    with Cons.prems(1) c e have run: "initializeServers ext penv servers st1 w1 = (st', w')"
      by simp
    from Cons.IH [OF run r1 d dis safe Cons.prems(6)] show ?thesis by (simp only: u)
  qed
qed

text \<open>
  C3, as stated, fails: the providers \<open>a\<close> (with a tool \<open>b__c\<close>) and \<open>a__b\<close> (with a
  tool \<open>c\<close>) have distinct names, and both tools are registered as \<open>a__b__c\<close>.
\<close>

theorem qualified_names_clash_counterexample:
  "distinct (map fst clashingServers) \<and>
   map name (mcpTools (fst (initializeMCP stubExt [] (Some clashingServers) initialState 0))) =
     [''a__b__c'', ''a__b__c''] \<and>
   \<not> distinct (map name (mcpTools (fst (initializeMCP stubExt [] (Some clashingServers) initialState 0))))"
  by (simp add: clashingServers_def initializeMCP_def orEmpty_def connectServer_def stubExt_def
      stubConnect_def stubListTools_def resolveTransport_def initialState_def registerTool_def
      qualifiedName_def stubTool_def Let_def)

text \<open>
  C3 (amended). When the provider names are distinct, none of them contains the
  separator \<open>__\<close> or ends with an underscore, and every provider lists each of its
  local names once, the qualified names in the registry of a freshly started process
  are pairwise distinct, also when two providers expose the same local name.
\<close>

theorem qualified_names_distinct:
  assumes "distinct (map fst servers)"
      and "\<forall>srv \<in> fst ` set servers. \<not> sublist ''__'' srv \<and> \<not> suffix ''_'' srv"
      and "\<forall>c w ts w'. listTools ext c w = (Inr ts, w') \<longrightarrow> distinct (map ti_name ts)"
  shows "distinct (map name (mcpTools (fst (initializeMCP ext penv (Some servers) initialState w))))"
proof -
  obtain st' w' where run: "initializeServers ext penv servers initialState w = (st', w')"
    by (metis prod.exhaust)
  have "registryOf ({} \<union> fst ` set servers) st'"
  proof (rule initializeServers_registry [OF run _ assms(1) _ _ assms(3)])
    show "registryOf {} initialState" by (simp add: registryOf_def initialState_def)
    show "{} \<inter> fst ` set servers = {}" by simp
    show "\<forall>p \<in> {} \<union> fst ` set servers. \<not> sublist ''__'' p \<and> \<not> suffix ''_'' p"
      using assms(2) by simp
  qed
  then show ?thesis by (simp add: registryOf_def initializeMCP_def orEmpty_def run)
qed


lemma stubState_eval:
  "initializeMCP stubExt stubEnv (Some stubServers) initialState w =
     (\<lparr> mcpClients = [(''search'', ''search-server''), (''flaky'', ''flaky-server''),
                      (''files'', ''files-server'')],
        mcpTools =
          [\<lparr> name = ''search__lookup'', description = JString ''a tool'', input_schema = JObject [],
             serverName = ''search'', originalName = ''lookup'' \<rparr>,
           \<lparr> name = ''search__news'', description = JString ''a tool'', input_schema = JObject [],
             serverName = ''search'', originalName = ''news'' \<rparr>,
           \<lparr> name = ''files__lookup'', description = JString ''a tool'', input_schema = JObject [],
             serverName = ''files'', originalName = ''lookup'' \<rparr>],
        console_error =
          [''Failed to connect to MCP server broken: spawn missing-binary ENOENT'',
           ''Failed to connect to MCP server flaky: Connection closed''] \<rparr>, w)"
  by (simp add: stubServers_def initializeMCP_def orEmpty_def connectServer_def stubExt_def
      stubConnect_def stubListTools_def resolveTransport_def initialState_def registerTool_def
      qualifiedName_def stubTool_def failureLine_def Let_def)

text \<open>
  The stub providers \<open>search\<close> and \<open>files\<close> both expose \<open>lookup\<close>; the registry holds
  \<open>search__lookup\<close> and \<open>files__lookup\<close>.
\<close>

theorem qualified_names_distinct_witness:
  "distinct (map fst stubServers) \<and>
   map name (mcpTools (fst (initializeMCP stubExt stubEnv (Some stubServers) initialState 0))) =
     [''search__lookup'', ''search__news'', ''files__lookup''] \<and>
   distinct (map name (mcpTools (fst (initializeMCP stubExt stubEnv (Some stubServers) initialState 0))))"
proof -
  have d: "distinct (map fst stubServers)" by (simp add: stubServers_def)
  have s: "\<forall>srv \<in> fst ` set stubServers. \<not> sublist ''__'' srv \<and> \<not> suffix ''_'' srv"
    by (simp add: stubServers_def sublist_Cons_right suffix_Cons)
  have l: "\<forall>c w ts w'. listTools stubExt c w = (Inr ts, w') \<longrightarrow> distinct (map ti_name ts)"
    by (auto simp: stubExt_def stubListTools_def stubTool_def split: if_splits)
  from d qualified_names_distinct [OF d s l, of stubEnv 0] show ?thesis
    by (simp add: stubState_eval)
qed

section \<open>Failing providers\<close>






section \<open>Tool requests and their results\<close>

lemma modelCalls_append: "modelCalls (xs @ ys) = modelCalls xs @ modelCalls ys"
  by (simp add: modelCalls_def map_filter_def)

lemma modelCalls_simps:
  "modelCalls [] = []"
  "modelCalls (Connect t # xs) = modelCalls xs"
  "modelCalls (ListTools c # xs) = modelCalls xs"
  "modelCalls (CallTool c n a # xs) = modelCalls xs"
  "modelCalls (Create req r v # xs) = (req, r) # modelCalls xs"
  by (simp_all add: modelCalls_def map_filter_def)

lemma chained_snoc: "chained (xs @ [a, b]) \<longleftrightarrow> chained (xs @ [a]) \<and> follows a b"
proof (induction xs rule: chained.induct)
  case 1
  then show ?case by simp
next
  case (2 x)
  then show ?case by auto
next
  case (3 x y rest)
  then show ?case by auto
qed

lemma callMCPTool_traced:
  "callMCPTool (traced ext) st n a (w, log) = (r, (w', log')) \<Longrightarrow>
   modelCalls log' = modelCalls log"
  by (auto simp: callMCPTool_def traced_simps modelCalls_append modelCalls_simps
      split: option.splits prod.splits)

lemma answerToolUse_id: "toolResultId (fst (answerToolUse ext st tid n a w)) = Some tid"
  by (simp add: answerToolUse_def Let_def split: prod.splits sum.splits)

lemma answerToolUse_traced:
  "answerToolUse (traced ext) st tid n a (w, log) = (r, (w', log')) \<Longrightarrow>
   modelCalls log' = modelCalls log"
  by (auto simp: answerToolUse_def Let_def split: prod.splits sum.splits
      dest: callMCPTool_traced)

lemma dispatchTools_ids:
  "dispatchTools ext st blocks acc w = (rs, w') \<Longrightarrow>
   map toolResultId rs = map toolResultId acc @ map Some (List.map_filter toolUseId blocks)"
proof (induction blocks arbitrary: acc w)
  case Nil
  then show ?case by (simp add: map_filter_def)
next
  case (Cons b blocks)
  show ?case
  proof (cases b)
    case (ToolUse tid n a)
    obtain r w1 where a: "answerToolUse ext st tid n a w = (r, w1)" by (metis prod.exhaust)
    with Cons.prems ToolUse have run: "dispatchTools ext st blocks (acc @ [r]) w1 = (rs, w')"
      by simp
    from answerToolUse_id [of ext st tid n a w] a have "toolResultId r = Some tid" by simp
    with Cons.IH [OF run] ToolUse show ?thesis by (simp add: map_filter_def)
  qed (use Cons in \<open>simp_all add: map_filter_def\<close>)
qed

lemma dispatchTools_answers:
  "dispatchTools ext st blocks [] w = (rs, w') \<Longrightarrow> answers rs blocks"
  by (drule dispatchTools_ids) (simp add: answers_def)

lemma dispatchTools_traced:
  "dispatchTools (traced ext) st blocks acc (w, log) = (rs, (w', log')) \<Longrightarrow>
   modelCalls log' = modelCalls log"
proof (induction blocks arbitrary: acc w log)
  case Nil
  then show ?case by simp
next
  case (Cons b blocks)
  show ?case
  proof (cases b)
    case (ToolUse tid n a)
    obtain r w1 log1 where a: "answerToolUse (traced ext) st tid n a (w, log) = (r, (w1, log1))"
      by (metis prod.exhaust)
    with Cons.prems ToolUse have
      run: "dispatchTools (traced ext) st blocks (acc @ [r]) (w1, log1) = (rs, (w', log'))"
      by simp
    from Cons.IH [OF run] answerToolUse_traced [OF a] show ?thesis by simp
  qed (use Cons in simp_all)
qed

lemma createMessage_traced:
  "createMessage (traced ext) sp msgs tls (w, log) = (r, (w', log')) \<Longrightarrow>
   \<exists>req. log' = log @ [Create req r w'] \<and> messages req = msgs \<and> system req = sp \<and>
         tools req = (if length tls > 0 then Some tls else None)"
  by (auto simp: createMessage_def traced_simps split: prod.splits)

lemma toolUseLoop_chained:
  assumes "toolUseLoop fuel (traced ext) st sp tls resp msgs (w, log) = (out, msgs', (w', log'))"
      and "modelCalls log = calls @ [(req, Inr resp)]"
      and "messages req = msgs"
      and "chained (modelCalls log)"
  shows "chained (modelCalls log')"
  using assms
proof (induction fuel arbitrary: resp msgs w log calls req)
  case 0
  then show ?case by (auto split: if_splits)
next
  case (Suc fuel)
  show ?case
  proof (cases "stop_reason resp = ''tool_use''")
    case False
    with Suc.prems show ?thesis by simp
  next
    case True
    let ?msgs1 = "msgs @ [\<lparr> role = assistant, content = Blocks (resp_content resp) \<rparr>]"
    obtain results w1 log1 where
      d: "dispatchTools (traced ext) st (resp_content resp) [] (w, log) = (results, (w1, log1))"
      by (metis prod.exhaust)
    let ?msgs2 = "?msgs1 @ [\<lparr> role = user, content = Blocks results \<rparr>]"
    obtain r w2 log2 where
      c: "createMessage (traced ext) sp ?msgs2 tls (w1, log1) = (r, (w2, log2))"
      by (metis prod.exhaust)
    from createMessage_traced [OF c] obtain req2 where
      log2: "log2 = log1 @ [Create req2 r w2]" and m2: "messages req2 = ?msgs2" by blast
    have calls1: "modelCalls log1 = calls @ [(req, Inr resp)]"
      using dispatchTools_traced [OF d] Suc.prems(2) by simp
    have calls2: "modelCalls log2 = calls @ [(req, Inr resp), (req2, r)]"
      using calls1 log2 by (simp add: modelCalls_append modelCalls_simps)
    have f: "follows (req, Inr resp) (req2, r)"
      unfolding follows_def using True m2 Suc.prems(3) dispatchTools_answers [OF d] by auto
    have ch2: "chained (modelCalls log2)"
      unfolding calls2 chained_snoc using Suc.prems(2,4) f by simp
    show ?thesis
    proof (cases r)
      case (Inl err)
      with Suc.prems(1) True d c have "log' = log2" by (simp add: Let_def)
      with ch2 show ?thesis by simp
    next
      case (Inr resp')
      with Suc.prems(1) True d c have
        run: "toolUseLoop fuel (traced ext) st sp tls resp' ?msgs2 (w2, log2) = (out, msgs', (w', log'))"
        by (simp add: Let_def)
      have c2: "modelCalls log2 = (calls @ [(req, Inr resp)]) @ [(req2, Inr resp')]"
        using calls2 Inr by simp
      from Suc.IH [OF run c2 m2 ch2] show ?thesis .
    qed
  qed
qed

text \<open>
  C1. The results that dispatching builds for the blocks of a response answer its tool
  requests: one tool result for each, carrying its identifier, in the same order. And
  in every run of the agent, for every bound on the iterations, each model call after
  the first is made with the messages of the call before it, followed by the assistant
  turn with that call's answer and by a single user turn whose blocks answer the tool
  requests of that answer.
\<close>

theorem tool_uses_are_answered:
  "answers (fst (dispatchTools ext st blocks [] w)) blocks \<and>
   chained (modelCalls (snd (snd (snd
      (callClaudeAgent fuel (traced ext) st agentType userMessage previousContext (w, []))))))"
proof -
  let ?sp = "agentPrompts agentType" and ?msgs = "seedMessages userMessage previousContext"
  let ?tls = "if agentType = ''researcher'' then getAnthropicTools st else []"
  obtain r w1 log1 where c: "createMessage (traced ext) ?sp ?msgs ?tls (w, []) = (r, (w1, log1))"
    by (metis prod.exhaust)
  from createMessage_traced [OF c] obtain req where
    log1: "log1 = [Create req r w1]" and m: "messages req = ?msgs" by auto
  have "chained (modelCalls (snd (snd (snd
      (callClaudeAgent fuel (traced ext) st agentType userMessage previousContext (w, []))))))"
  proof (cases r)
    case (Inl err)
    with c log1 show ?thesis
      by (simp add: callClaudeAgent_def Let_def modelCalls_simps)
  next
    case (Inr resp)
    obtain out msgs' w2 log2 where
      l: "toolUseLoop fuel (traced ext) st ?sp ?tls resp ?msgs (w1, log1) = (out, msgs', (w2, log2))"
      by (metis prod.exhaust)
    have "modelCalls log1 = [] @ [(req, Inr resp)]"
      using log1 Inr by (simp add: modelCalls_simps)
    from toolUseLoop_chained [OF l this m] log1 have "chained (modelCalls log2)"
      by (simp add: modelCalls_simps)
    with c Inr l show ?thesis
      by (cases out) (simp_all add: callClaudeAgent_def Let_def)
  qed
  moreover have "answers (fst (dispatchTools ext st blocks [] w)) blocks"
    by (rule dispatchTools_answers [of ext st blocks w _ "snd (dispatchTools ext st blocks [] w)"]) simp
  ultimately show ?thesis by simp
qed

lemma stubState_eq:
  "stubState =
     \<lparr> mcpClients = [(''search'', ''search-server''), (''flaky'', ''flaky-server''),
                      (''files'', ''files-server'')],
        mcpTools =
          [\<lparr> name = ''search__lookup'', description = JString ''a tool'', input_schema = JObject [],
             serverName = ''search'', originalName = ''lookup'' \<rparr>,
           \<lparr> name = ''search__news'', description = JString ''a tool'', input_schema = JObject [],
             serverName = ''search'', originalName = ''news'' \<rparr>,
           \<lparr> name = ''files__lookup'', description = JString ''a tool'', input_schema = JObject [],
             serverName = ''files'', originalName = ''lookup'' \<rparr>],
        console_error =
          [''Failed to connect to MCP server broken: spawn missing-binary ENOENT'',
           ''Failed to connect to MCP server flaky: Connection closed''] \<rparr>"
  by (simp add: stubState_def stubState_eval)

lemma stub_dispatch:
  "dispatchTools stubExt stubState (resp_content stubToolUse) [] w =
     ([ToolResult ''t1'' ''first second'' None,
       ToolResult ''t2'' ''Error: rate limited'' (Some True),
       ToolResult ''t3'' ''Error: Tool not found: nowhere__tool'' (Some True)], w)"
  by (simp add: stubState_eq stubToolUse_def answerToolUse_def callMCPTool_def stubExt_def
      stubCallTool_def extractText_def Let_def)

lemma stub_dispatch_traced:
  "dispatchTools (traced stubExt) stubState (resp_content stubToolUse) [] (w, log) =
     ([ToolResult ''t1'' ''first second'' None,
       ToolResult ''t2'' ''Error: rate limited'' (Some True),
       ToolResult ''t3'' ''Error: Tool not found: nowhere__tool'' (Some True)],
      (w, log @ [CallTool ''search-server'' ''lookup'' (JObject [(''q'', JString ''tides'')]),
                 CallTool ''search-server'' ''news'' JNull]))"
  by (simp add: stubState_eq stubToolUse_def answerToolUse_def callMCPTool_def traced_simps
      stubExt_def stubCallTool_def extractText_def Let_def)

text \<open>
  The stub model asks for three tools (\<open>t1\<close>, \<open>t2\<close>, \<open>t3\<close>); the second model
  call carries the three results in that order in one user turn.
\<close>

theorem tool_uses_are_answered_witness:
  "fst (dispatchTools stubExt stubState (resp_content stubToolUse) [] 0) =
     [ToolResult ''t1'' ''first second'' None,
      ToolResult ''t2'' ''Error: rate limited'' (Some True),
      ToolResult ''t3'' ''Error: Tool not found: nowhere__tool'' (Some True)] \<and>
   map (\<lambda>c. messages (fst c)) (modelCalls (snd (snd (snd
      (callClaudeAgent (Suc 0) (traced stubExt) stubState ''researcher'' ''tides'' None (0, [])))))) =
     [[\<lparr> role = user, content = Str ''tides'' \<rparr>],
      [\<lparr> role = user, content = Str ''tides'' \<rparr>,
       \<lparr> role = assistant, content = Blocks (resp_content stubToolUse) \<rparr>,
       \<lparr> role = user, content = Blocks
          [ToolResult ''t1'' ''first second'' None,
           ToolResult ''t2'' ''Error: rate limited'' (Some True),
           ToolResult ''t3'' ''Error: Tool not found: nowhere__tool'' (Some True)] \<rparr>]] \<and>
   answers (fst (dispatchTools stubExt stubState (resp_content stubToolUse) [] 0))
     (resp_content stubToolUse) \<and>
   chained (modelCalls (snd (snd (snd
      (callClaudeAgent (Suc 0) (traced stubExt) stubState ''researcher'' ''tides'' None (0, []))))))"
proof -
  have run: "map (\<lambda>c. messages (fst c)) (modelCalls (snd (snd (snd
      (callClaudeAgent (Suc 0) (traced stubExt) stubState ''researcher'' ''tides'' None (0, [])))))) =
     [[\<lparr> role = user, content = Str ''tides'' \<rparr>],
      [\<lparr> role = user, content = Str ''tides'' \<rparr>,
       \<lparr> role = assistant, content = Blocks (resp_content stubToolUse) \<rparr>,
       \<lparr> role = user, content = Blocks
          [ToolResult ''t1'' ''first second'' None,
           ToolResult ''t2'' ''Error: rate limited'' (Some True),
           ToolResult ''t3'' ''Error: Tool not found: nowhere__tool'' (Some True)] \<rparr>]]"
    by code_simp
  from run stub_dispatch [of 0]
    tool_uses_are_answered [of stubExt stubState "resp_content stubToolUse" 0 "Suc 0"
      "''researcher''" "''tides''" None]
  show ?thesis by simp
qed

section \<open>Successful tool invocations\<close>

lemma fold_text:
  "fold (\<lambda>item textContent.
           case item of TextItem t \<Rightarrow> textContent @ t | OtherItem j \<Rightarrow> textContent) items acc =
   acc @ concat (List.map_filter textSegment items)"
proof (induction items arbitrary: acc)
  case Nil
  then show ?case by (simp add: map_filter_def)
next
  case (Cons i items)
  then show ?case by (cases i) (simp_all add: map_filter_def)
qed

lemma extractText_concat: "extractText result = concat (textSegments result)"
  by (simp add: extractText_def textSegments_def fold_text map_filter_def split: option.splits)

text \<open>
  C6, as stated, fails for an answer whose text segments are all empty: a text-typed
  segment exists, their concatenation is the empty string, and the content of the
  result is the serialization of the answer instead.
\<close>

theorem empty_text_is_serialized_counterexample:
  "callMCPTool stubExt stubState ''files__lookup'' JNull 0 =
     (Inr \<lparr> result_content = Some [TextItem []], result_rest = [] \<rparr>, 0) \<and>
   textSegments \<lparr> result_content = Some [TextItem []], result_rest = [] \<rparr> = [[]] \<and>
   fst (dispatchTools stubExt stubState [ToolUse ''t9'' ''files__lookup'' JNull] [] 0) =
     [ToolResult ''t9''
        (JSON_stringify stubExt \<lparr> result_content = Some [TextItem []], result_rest = [] \<rparr>) None] \<and>
   JSON_stringify stubExt \<lparr> result_content = Some [TextItem []], result_rest = [] \<rparr> \<noteq>
     concat (textSegments \<lparr> result_content = Some [TextItem []], result_rest = [] \<rparr>)"
  by code_simp

text \<open>
  C6 (amended). For every successful tool invocation during dispatch, the appended
  tool result has no error flag and its content is the concatenation of every
  text-typed segment of the provider's answer when that concatenation is not empty;
  when it is empty (no text-typed segment, or only empty ones) the content is the
  JSON serialization of the answer.
\<close>

theorem successful_tool_results:
  assumes "callMCPTool ext st tname tinput w = (Inr result, w1)"
  shows "dispatchTools ext st (ToolUse tid tname tinput # rest) acc w =
           dispatchTools ext st rest
             (acc @ [ToolResult tid
                       (if concat (textSegments result) = [] then JSON_stringify ext result
                        else concat (textSegments result)) None]) w1 \<and>
         \<not> isError (fst (answerToolUse ext st tid tname tinput w))"
  using assms by (simp add: answerToolUse_def extractText_concat Let_def)

text \<open>
  The stub's \<open>search__lookup\<close> answers with two text segments around an item of
  another type; the result holds their concatenation.
\<close>

theorem successful_tool_results_witness:
  "callMCPTool stubExt stubState ''search__lookup'' JNull 0 =
     (Inr \<lparr> result_content = Some [TextItem ''first '', OtherItem JNull, TextItem ''second''],
            result_rest = [] \<rparr>, 0) \<and>
   dispatchTools stubExt stubState [ToolUse ''t1'' ''search__lookup'' JNull] [] 0 =
     ([ToolResult ''t1'' ''first second'' None], 0)"
proof -
  have c: "callMCPTool stubExt stubState ''search__lookup'' JNull 0 =
     (Inr \<lparr> result_content = Some [TextItem ''first '', OtherItem JNull, TextItem ''second''],
            result_rest = [] \<rparr>, 0)"
    by code_simp
  from c successful_tool_results [OF c, of "''t1''" "[]" "[]"] show ?thesis
    by (simp add: textSegments_def map_filter_def)
qed

section \<open>Termination and the tools handed to the model\<close>

lemma join_nonempty: "x \<in> set xs \<Longrightarrow> x \<noteq> [] \<Longrightarrow> join sep xs \<noteq> []"
  by (induction sep xs rule: join.induct) auto

lemma finalText_nonempty:
  assumes "Text t \<in> set blocks" and "t \<noteq> []"
  shows "finalText blocks \<noteq> []"
proof -
  from assms(1) have "t \<in> set (List.map_filter textOf blocks)"
    by (force simp: map_filter_def)
  with assms(2) show ?thesis by (simp add: finalText_def join_nonempty)
qed

text \<open>
  C5. Let the model answer the first call of a run with the stop reason
  \<^verbatim>\<open>tool_use\<close>, and the second call, made after the tools were dispatched, with
  another stop reason and at least one non-empty text block. Then the run returns,
  for every bound of at least one iteration, after these two calls; its result is the
  text blocks of the second answer joined by newlines, and is not empty.
\<close>

theorem alternating_model_terminates:
  assumes tls: "tls = (if agentType = ''researcher'' then getAnthropicTools st else [])"
      and first: "createMessage ext (agentPrompts agentType)
                    (seedMessages userMessage previousContext) tls w = (Inr r1, w1)"
      and asks: "stop_reason r1 = ''tool_use''"
      and disp: "dispatchTools ext st (resp_content r1) [] w1 = (results, w2)"
      and second: "createMessage ext (agentPrompts agentType)
                     (seedMessages userMessage previousContext @
                        [\<lparr> role = assistant, content = Blocks (resp_content r1) \<rparr>,
                         \<lparr> role = user, content = Blocks results \<rparr>]) tls w2 = (Inr r2, w3)"
      and ends: "stop_reason r2 \<noteq> ''tool_use''"
      and some: "Text t \<in> set (resp_content r2)" "t \<noteq> []"
  shows "callClaudeAgent (Suc fuel) ext st agentType userMessage previousContext w =
           (Returned (join ''\<newline>'' (List.map_filter textOf (resp_content r2))),
            seedMessages userMessage previousContext @
              [\<lparr> role = assistant, content = Blocks (resp_content r1) \<rparr>,
               \<lparr> role = user, content = Blocks results \<rparr>],
            w3) \<and>
         join ''\<newline>'' (List.map_filter textOf (resp_content r2)) \<noteq> []"
proof -
  have stop: "toolUseLoop fuel ext st sp tls r2 msgs w3 = (Returned r2, msgs, w3)" for sp msgs
    using ends by (cases fuel) simp_all
  have "callClaudeAgent (Suc fuel) ext st agentType userMessage previousContext w =
           (Returned (finalText (resp_content r2)),
            seedMessages userMessage previousContext @
              [\<lparr> role = assistant, content = Blocks (resp_content r1) \<rparr>,
               \<lparr> role = user, content = Blocks results \<rparr>],
            w3)"
    using first asks disp second
    by (simp add: callClaudeAgent_def Let_def tls [symmetric] stop)
  moreover have "finalText (resp_content r2) \<noteq> []"
    using some by (rule finalText_nonempty)
  ultimately show ?thesis by (simp add: finalText_def)
qed

text \<open>
  The stub model: tools on the first call, two text blocks around a block of another
  type on the second. The run returns the two texts on two lines.
\<close>

theorem alternating_model_terminates_witness:
  "callClaudeAgent (Suc 0) stubExt stubState ''researcher'' ''tides'' None 0 =
     (Returned ''Finding one.\<newline>Finding two.'',
      [\<lparr> role = user, content = Str ''tides'' \<rparr>,
       \<lparr> role = assistant, content = Blocks (resp_content stubToolUse) \<rparr>,
       \<lparr> role = user, content = Blocks
          [ToolResult ''t1'' ''first second'' None,
           ToolResult ''t2'' ''Error: rate limited'' (Some True),
           ToolResult ''t3'' ''Error: Tool not found: nowhere__tool'' (Some True)] \<rparr>],
      2)"
proof -
  let ?results = "[ToolResult ''t1'' ''first second'' None,
           ToolResult ''t2'' ''Error: rate limited'' (Some True),
           ToolResult ''t3'' ''Error: Tool not found: nowhere__tool'' (Some True)]"
  have first: "createMessage stubExt (agentPrompts ''researcher'') (seedMessages ''tides'' None)
      (getAnthropicTools stubState) 0 = (Inr stubToolUse, 1)"
    by (simp add: createMessage_def stubExt_def stubCreate_def)
  have asks: "stop_reason stubToolUse = ''tool_use''" by (simp add: stubToolUse_def)
  have disp: "dispatchTools stubExt stubState (resp_content stubToolUse) [] 1 = (?results, 1)"
    by (rule stub_dispatch)
  have second: "createMessage stubExt (agentPrompts ''researcher'')
      (seedMessages ''tides'' None @
         [\<lparr> role = assistant, content = Blocks (resp_content stubToolUse) \<rparr>,
          \<lparr> role = user, content = Blocks ?results \<rparr>])
      (getAnthropicTools stubState) 1 = (Inr stubAnswer, 2)"
    by (simp add: createMessage_def stubExt_def stubCreate_def)
  have ends: "stop_reason stubAnswer \<noteq> ''tool_use''" by (simp add: stubAnswer_def)
  have some: "Text ''Finding one.'' \<in> set (resp_content stubAnswer)" "''Finding one.'' \<noteq> []"
    by (simp_all add: stubAnswer_def)
  from alternating_model_terminates [OF _ first asks disp second ends some, of 0]
  show ?thesis
    by (simp add: stubAnswer_def map_filter_def seedMessages_def)
qed

lemma toolUseLoop_tools:
  assumes "toolUseLoop fuel (traced ext) st sp tls resp msgs (w, log) = (out, msgs', (w', log'))"
      and "\<forall>c \<in> set (modelCalls log). tools (fst c) = (if length tls > 0 then Some tls else None)"
  shows "\<forall>c \<in> set (modelCalls log'). tools (fst c) = (if length tls > 0 then Some tls else None)"
  using assms
proof (induction fuel arbitrary: resp msgs w log)
  case 0
  then show ?case by (auto split: if_splits)
next
  case (Suc fuel)
  show ?case
  proof (cases "stop_reason resp = ''tool_use''")
    case False
    with Suc.prems show ?thesis by simp
  next
    case True
    let ?msgs1 = "msgs @ [\<lparr> role = assistant, content = Blocks (resp_content resp) \<rparr>]"
    obtain results w1 log1 where
      d: "dispatchTools (traced ext) st (resp_content resp) [] (w, log) = (results, (w1, log1))"
      by (metis prod.exhaust)
    let ?msgs2 = "?msgs1 @ [\<lparr> role = user, content = Blocks results \<rparr>]"
    obtain r w2 log2 where
      c: "createMessage (traced ext) sp ?msgs2 tls (w1, log1) = (r, (w2, log2))"
      by (metis prod.exhaust)
    from createMessage_traced [OF c] obtain req2 where
      log2: "log2 = log1 @ [Create req2 r w2]"
      and t2: "tools req2 = (if length tls > 0 then Some tls else None)" by blast
    have inv2: "\<forall>c \<in> set (modelCalls log2). tools (fst c) = (if length tls > 0 then Some tls else None)"
      using dispatchTools_traced [OF d] Suc.prems(2) log2 t2
      by (simp add: modelCalls_append modelCalls_simps)
    show ?thesis
    proof (cases r)
      case (Inl err)
      with Suc.prems(1) True d c have "log' = log2" by (simp add: Let_def)
      with inv2 show ?thesis by simp
    next
      case (Inr resp')
      with Suc.prems(1) True d c have
        run: "toolUseLoop fuel (traced ext) st sp tls resp' ?msgs2 (w2, log2) = (out, msgs', (w', log'))"
        by (simp add: Let_def)
      from Suc.IH [OF run inv2] show ?thesis .
    qed
  qed
qed

lemma callClaudeAgent_tools:
  "\<forall>c \<in> set (modelCalls (snd (snd (snd
       (callClaudeAgent fuel (traced ext) st agentType userMessage previousContext (w, [])))))).
     tools (fst c) =
       (if agentType = ''researcher'' \<and> mcpTools st \<noteq> [] then Some (getAnthropicTools st) else None)"
proof -
  let ?sp = "agentPrompts agentType" and ?msgs = "seedMessages userMessage previousContext"
  let ?tls = "if agentType = ''researcher'' then getAnthropicTools st else []"
  let ?T = "if agentType = ''researcher'' \<and> mcpTools st \<noteq> [] then Some (getAnthropicTools st) else None"
  have T: "(if length ?tls > 0 then Some ?tls else None) = ?T"
    by (simp add: getAnthropicTools_def)
  obtain r w1 log1 where c: "createMessage (traced ext) ?sp ?msgs ?tls (w, []) = (r, (w1, log1))"
    by (metis prod.exhaust)
  from createMessage_traced [OF c] obtain req where
    log1: "log1 = [Create req r w1]"
    and t: "tools req = (if length ?tls > 0 then Some ?tls else None)" by auto
  have inv1: "\<forall>c \<in> set (modelCalls log1). tools (fst c) = (if length ?tls > 0 then Some ?tls else None)"
    using log1 t by (simp add: modelCalls_simps)
  show ?thesis
  proof (cases r)
    case (Inl err)
    with c inv1 show ?thesis
      unfolding T by (simp add: callClaudeAgent_def Let_def)
  next
    case (Inr resp)
    obtain out msgs' w2 log2 where
      l: "toolUseLoop fuel (traced ext) st ?sp ?tls resp ?msgs (w1, log1) = (out, msgs', (w2, log2))"
      by (metis prod.exhaust)
    from toolUseLoop_tools [OF l inv1]
    have "\<forall>c \<in> set (modelCalls log2). tools (fst c) = ?T" unfolding T .
    with c Inr l show ?thesis
      by (cases out) (simp_all add: callClaudeAgent_def Let_def)
  qed
qed

text \<open>
  C7. In every run of an agent whose type is not \<open>researcher\<close>, for every bound on the
  iterations, every model call is made without a \<open>tools\<close> parameter, whatever the
  registry holds. Every model call of the researcher carries the tools of the registry
  (and no \<open>tools\<close> parameter when the registry is empty).
\<close>

theorem only_researcher_gets_tools:
  "(agentType \<noteq> ''researcher'' \<longrightarrow>
      (\<forall>c \<in> set (modelCalls (snd (snd (snd
           (callClaudeAgent fuel (traced ext) st agentType userMessage previousContext (w, [])))))).
         tools (fst c) = None)) \<and>
   (agentType = ''researcher'' \<longrightarrow>
      (\<forall>c \<in> set (modelCalls (snd (snd (snd
           (callClaudeAgent fuel (traced ext) st agentType userMessage previousContext (w, [])))))).
         tools (fst c) = (if mcpTools st = [] then None else Some (getAnthropicTools st))))"
  using callClaudeAgent_tools [of fuel ext st agentType userMessage previousContext w]
  by auto

text \<open>
  The stub registry holds three tools; the two model calls of the analyzer carry none,
  those of the researcher carry the three.
\<close>

theorem only_researcher_gets_tools_witness:
  "length (mcpTools stubState) = 3 \<and>
   map (\<lambda>c. tools (fst c)) (modelCalls (snd (snd (snd
       (callClaudeAgent (Suc 0) (traced stubExt) stubState ''analyzer'' ''tides'' None (0, [])))))) =
     [None, None] \<and>
   map (\<lambda>c. map_option (map at_name) (tools (fst c))) (modelCalls (snd (snd (snd
       (callClaudeAgent (Suc 0) (traced stubExt) stubState ''researcher'' ''tides'' None (0, [])))))) =
     [Some [''search__lookup'', ''search__news'', ''files__lookup''],
      Some [''search__lookup'', ''search__news'', ''files__lookup'']]"
proof -
  have n: "length (mcpTools stubState) = 3" by (simp add: stubState_eq)
  have none: "map (\<lambda>c. tools (fst c)) (modelCalls (snd (snd (snd
       (callClaudeAgent (Suc 0) (traced stubExt) stubState ''analyzer'' ''tides'' None (0, [])))))) =
     [None, None]"
    by code_simp
  have all: "map (\<lambda>c. map_option (map at_name) (tools (fst c))) (modelCalls (snd (snd (snd
       (callClaudeAgent (Suc 0) (traced stubExt) stubState ''researcher'' ''tides'' None (0, [])))))) =
     [Some [''search__lookup'', ''search__news'', ''files__lookup''],
      Some [''search__lookup'', ''search__news'', ''files__lookup'']]"
    by code_simp
  from n none all
    only_researcher_gets_tools [of "''analyzer''" "Suc 0" stubExt stubState "''tides''" None 0]
  show ?thesis by simp
qed

section \<open>The three variants of the agent call\<close>

lemma prompts_agree:
  assumes "agentType = ''analyzer'' \<or> agentType = ''writer''"
  shows "agentPrompts_api agentType = agentPrompts agentType"
    and "agentPrompts_search agentType = agentPrompts agentType"
  using assms
  by (auto simp: agentPrompts_def agentPrompts_api_def agentPrompts_search_def
      analyzerPrompt_def writerPrompt_def)

lemma toolUseLoop_stops:
  "stop_reason resp \<noteq> ''tool_use'' \<Longrightarrow>
   toolUseLoop fuel ext st sp tls resp msgs w = (Returned resp, msgs, w)"
  by (cases fuel) simp_all

text \<open>
  C10, as stated, fails when the model answers the single call of the serverless
  variants with the stop reason \<^verbatim>\<open>tool_use\<close>: they return the text of that
  answer, while the server variant dispatches and asks the model again.
\<close>

theorem variants_differ_on_tool_use_counterexample:
  "callClaudeAgent (Suc 0) stubExt stubState ''analyzer'' ''tides'' None 0 =
     (Returned ''Finding one.\<newline>Finding two.'',
      [\<lparr> role = user, content = Str ''tides'' \<rparr>,
       \<lparr> role = assistant, content = Blocks (resp_content stubToolUse) \<rparr>,
       \<lparr> role = user, content = Blocks
          [ToolResult ''t1'' ''first second'' None,
           ToolResult ''t2'' ''Error: rate limited'' (Some True),
           ToolResult ''t3'' ''Error: Tool not found: nowhere__tool'' (Some True)] \<rparr>],
      2) \<and>
   callClaudeAgent_api stubExt ''analyzer'' ''tides'' None 0 =
     (Returned ''Let me look this up.'', [\<lparr> role = user, content = Str ''tides'' \<rparr>], 1) \<and>
   callClaudeAgent_search stubExt stubSearch ''analyzer'' ''tides'' None 0 =
     (Returned ''Let me look this up.'', [\<lparr> role = user, content = Str ''tides'' \<rparr>], 1)"
  by code_simp

text \<open>
  C10 (amended). For the agent types \<open>analyzer\<close> and \<open>writer\<close>, when the model's answer
  to the first call is an error or has a stop reason other than \<^verbatim>\<open>tool_use\<close>, the
  server variant (for every bound on its loop) and the two serverless variants do the
  same: one model call, with the same system prompt, the messages built from the
  optional context and the user's message, and no tools; they return the same text,
  the same messages and leave the same world. (With \<open>traced ext\<close> for \<open>ext\<close> the
  world holds the log of the calls.)
\<close>

theorem variants_agree_without_tool_use:
  assumes agent: "agentType = ''analyzer'' \<or> agentType = ''writer''"
      and call: "messages_create ext
                   \<lparr> model = ''claude-sonnet-4-20250514'', max_tokens = 4096,
                     system = agentPrompts agentType,
                     messages = seedMessages userMessage previousContext,
                     tools = None \<rparr> w = (r, w1)"
      and stop: "\<forall>resp. r = Inr resp \<longrightarrow> stop_reason resp \<noteq> ''tool_use''"
  shows "callClaudeAgent fuel ext st agentType userMessage previousContext w =
           (case r of Inl err \<Rightarrow> Raised err | Inr resp \<Rightarrow> Returned (finalText (resp_content resp)),
            seedMessages userMessage previousContext, w1) \<and>
         callClaudeAgent_api ext agentType userMessage previousContext w =
           callClaudeAgent fuel ext st agentType userMessage previousContext w \<and>
         callClaudeAgent_search ext braveSearch agentType userMessage previousContext w =
           callClaudeAgent fuel ext st agentType userMessage previousContext w"
proof -
  from agent have nr: "agentType \<noteq> ''researcher''" by auto
  have server: "callClaudeAgent fuel ext st agentType userMessage previousContext w =
           (case r of Inl err \<Rightarrow> Raised err | Inr resp \<Rightarrow> Returned (finalText (resp_content resp)),
            seedMessages userMessage previousContext, w1)"
    using nr call stop
    by (cases r) (simp_all add: callClaudeAgent_def createMessage_def Let_def toolUseLoop_stops)
  have api: "callClaudeAgent_api ext agentType userMessage previousContext w =
           (case r of Inl err \<Rightarrow> Raised err | Inr resp \<Rightarrow> Returned (finalText (resp_content resp)),
            seedMessages userMessage previousContext, w1)"
    using call prompts_agree(1) [OF agent]
    by (cases r) (simp_all add: callClaudeAgent_api_def createPlain_def Let_def)
  have search: "callClaudeAgent_search ext braveSearch agentType userMessage previousContext w =
           (case r of Inl err \<Rightarrow> Raised err | Inr resp \<Rightarrow> Returned (finalText (resp_content resp)),
            seedMessages userMessage previousContext, w1)"
    using nr call prompts_agree(2) [OF agent]
    by (cases r) (simp_all add: callClaudeAgent_search_def createPlain_def Let_def)
  from server api search show ?thesis by simp
qed

text \<open>
  The writer with a context, the stub model answering with its final answer (its
  world is 1): three messages, one logged call without tools, the same in all three.
\<close>

theorem variants_agree_without_tool_use_witness:
  "callClaudeAgent (Suc 0) (traced stubExt) stubState ''writer'' ''tides'' (Some ''notes'') (1, []) =
     (Returned ''Finding one.\<newline>Finding two.'',
      [\<lparr> role = user, content = Str ''notes'' \<rparr>,
       \<lparr> role = assistant,
         content = Str ''I understand the context. Please provide your request.'' \<rparr>,
       \<lparr> role = user, content = Str ''tides'' \<rparr>],
      (2, [Create \<lparr> model = ''claude-sonnet-4-20250514'', max_tokens = 4096,
                   system = Some (JString writerPrompt),
                   messages = [\<lparr> role = user, content = Str ''notes'' \<rparr>,
                               \<lparr> role = assistant,
                                 content = Str ''I understand the context. Please provide your request.'' \<rparr>,
                               \<lparr> role = user, content = Str ''tides'' \<rparr>],
                   tools = None \<rparr> (Inr stubAnswer) 2])) \<and>
   callClaudeAgent_api (traced stubExt) ''writer'' ''tides'' (Some ''notes'') (1, []) =
     callClaudeAgent (Suc 0) (traced stubExt) stubState ''writer'' ''tides'' (Some ''notes'') (1, []) \<and>
   callClaudeAgent_search (traced stubExt) stubSearch ''writer'' ''tides'' (Some ''notes'') (1, []) =
     callClaudeAgent (Suc 0) (traced stubExt) stubState ''writer'' ''tides'' (Some ''notes'') (1, [])"
proof -
  let ?req = "\<lparr> model = ''claude-sonnet-4-20250514'', max_tokens = 4096,
                 system = agentPrompts ''writer'',
                 messages = seedMessages ''tides'' (Some ''notes''),
                 tools = None \<rparr>"
  have call: "messages_create (traced stubExt) ?req (1, []) =
                (Inr stubAnswer, (2, [Create ?req (Inr stubAnswer) 2]))"
    by (simp add: traced_simps stubExt_def stubCreate_def)
  have stop: "\<forall>resp. (Inr stubAnswer :: error + response) = Inr resp \<longrightarrow>
                stop_reason resp \<noteq> ''tool_use''"
    by (simp add: stubAnswer_def)
  from variants_agree_without_tool_use [OF _ call stop, of "Suc 0" stubState stubSearch]
  show ?thesis
    by (simp add: finalText_def map_filter_def stubAnswer_def seedMessages_def agentPrompts_def
        acknowledgment_def)
qed

section \<open>A traced run is the run\<close>

text \<open>
  A run against \<open>traced ext\<close> is the run against \<open>ext\<close> with a log beside it: the
  results, the state and the world are the same, and the log only grows.
\<close>

lemma traced_callMCPTool:
  "\<exists>l. callMCPTool (traced ext) st n a (w, log) =
        (case callMCPTool ext st n a w of (r, w') \<Rightarrow> (r, (w', log @ l)))"
  by (auto simp: callMCPTool_def traced_simps split: option.splits prod.splits)

lemma traced_answerToolUse:
  "\<exists>l. answerToolUse (traced ext) st tid n a (w, log) =
        (case answerToolUse ext st tid n a w of (r, w') \<Rightarrow> (r, (w', log @ l)))"
proof -
  obtain r w' where p: "callMCPTool ext st n a w = (r, w')" by (metis prod.exhaust)
  with traced_callMCPTool [of ext st n a w log] obtain l where
    "callMCPTool (traced ext) st n a (w, log) = (r, (w', log @ l))" by auto
  with p show ?thesis
    by (cases r) (auto simp: answerToolUse_def traced_simps Let_def)
qed

lemma traced_dispatchTools:
  "\<exists>l. dispatchTools (traced ext) st blocks acc (w, log) =
        (case dispatchTools ext st blocks acc w of (rs, w') \<Rightarrow> (rs, (w', log @ l)))"
proof (induction blocks arbitrary: acc w log)
  case Nil
  then show ?case by simp
next
  case (Cons b blocks)
  show ?case
  proof (cases b)
    case (ToolUse tid n a)
    obtain r w1 where p: "answerToolUse ext st tid n a w = (r, w1)" by (metis prod.exhaust)
    with traced_answerToolUse [of ext st tid n a w log] obtain l1 where
      t: "answerToolUse (traced ext) st tid n a (w, log) = (r, (w1, log @ l1))" by auto
    from Cons.IH [of "acc @ [r]" w1 "log @ l1"] obtain l2 where
      "dispatchTools (traced ext) st blocks (acc @ [r]) (w1, log @ l1) =
         (case dispatchTools ext st blocks (acc @ [r]) w1 of (rs, w') \<Rightarrow> (rs, (w', (log @ l1) @ l2)))"
      by blast
    with p t ToolUse show ?thesis by (auto split: prod.splits)
  qed (use Cons.IH in simp_all)
qed

lemma traced_createMessage:
  "\<exists>l. createMessage (traced ext) sp msgs tls (w, log) =
        (case createMessage ext sp msgs tls w of (r, w') \<Rightarrow> (r, (w', log @ l)))"
  by (auto simp: createMessage_def traced_simps split: prod.splits)

lemma traced_toolUseLoop:
  "\<exists>l. toolUseLoop fuel (traced ext) st sp tls resp msgs (w, log) =
        (case toolUseLoop fuel ext st sp tls resp msgs w of
           (out, msgs', w') \<Rightarrow> (out, msgs', (w', log @ l)))"
proof (induction fuel arbitrary: resp msgs w log)
  case 0
  then show ?case by simp
next
  case (Suc fuel)
  show ?case
  proof (cases "stop_reason resp = ''tool_use''")
    case False
    then show ?thesis by simp
  next
    case True
    let ?msgs1 = "msgs @ [\<lparr> role = assistant, content = Blocks (resp_content resp) \<rparr>]"
    obtain results w1 where d: "dispatchTools ext st (resp_content resp) [] w = (results, w1)"
      by (metis prod.exhaust)
    with traced_dispatchTools [of ext st "resp_content resp" "[]" w log] obtain l1 where
      dt: "dispatchTools (traced ext) st (resp_content resp) [] (w, log) = (results, (w1, log @ l1))"
      by auto
    let ?msgs2 = "?msgs1 @ [\<lparr> role = user, content = Blocks results \<rparr>]"
    obtain r w2 where c: "createMessage ext sp ?msgs2 tls w1 = (r, w2)" by (metis prod.exhaust)
    with traced_createMessage [of ext sp ?msgs2 tls w1 "log @ l1"] obtain l2 where
      ct: "createMessage (traced ext) sp ?msgs2 tls (w1, log @ l1) = (r, (w2, (log @ l1) @ l2))"
      by auto
    show ?thesis
    proof (cases r)
      case (Inl err)
      with True d dt c ct show ?thesis by (auto simp: Let_def)
    next
      case (Inr resp')
      from Suc.IH [of resp' ?msgs2 w2 "(log @ l1) @ l2"] obtain l3 where
        "toolUseLoop fuel (traced ext) st sp tls resp' ?msgs2 (w2, (log @ l1) @ l2) =
           (case toolUseLoop fuel ext st sp tls resp' ?msgs2 w2 of
              (out, msgs', w') \<Rightarrow> (out, msgs', (w', ((log @ l1) @ l2) @ l3)))"
        by blast
      with Inr True d dt c ct show ?thesis by (auto simp: Let_def split: prod.splits)
    qed
  qed
qed

lemma traced_callClaudeAgent:
  "\<exists>l. callClaudeAgent fuel (traced ext) st agentType userMessage previousContext (w, log) =
        (case callClaudeAgent fuel ext st agentType userMessage previousContext w of
           (out, msgs', w') \<Rightarrow> (out, msgs', (w', log @ l)))"
proof -
  let ?sp = "agentPrompts agentType" and ?msgs = "seedMessages userMessage previousContext"
  let ?tls = "if agentType = ''researcher'' then getAnthropicTools st else []"
  obtain r w1 where c: "createMessage ext ?sp ?msgs ?tls w = (r, w1)" by (metis prod.exhaust)
  with traced_createMessage [of ext ?sp ?msgs ?tls w log] obtain l1 where
    ct: "createMessage (traced ext) ?sp ?msgs ?tls (w, log) = (r, (w1, log @ l1))" by auto
  show ?thesis
  proof (cases r)
    case (Inl err)
    with c ct show ?thesis by (auto simp: callClaudeAgent_def Let_def)
  next
    case (Inr resp)
    obtain out msgs' w2 where
      p: "toolUseLoop fuel ext st ?sp ?tls resp ?msgs w1 = (out, msgs', w2)"
      by (metis prod.exhaust)
    with traced_toolUseLoop [of fuel ext st ?sp ?tls resp ?msgs w1 "log @ l1"] obtain l2 where
      t: "toolUseLoop fuel (traced ext) st ?sp ?tls resp ?msgs (w1, log @ l1) =
            (out, msgs', (w2, (log @ l1) @ l2))" by auto
    with Inr c ct p show ?thesis
      by (cases out) (auto simp: callClaudeAgent_def Let_def)
  qed
qed

lemma traced_connectServer:
  "\<exists>l. connectServer (traced ext) penv srv cfg st (w, log) =
        (case connectServer ext penv srv cfg st w of (r, st', w') \<Rightarrow> (r, st', (w', log @ l)))"
  by (auto simp: connectServer_def traced_simps Let_def split: prod.splits sum.splits)

lemma traced_initializeServers:
  "\<exists>l. initializeServers (traced ext) penv servers st (w, log) =
        (case initializeServers ext penv servers st w of (st', w') \<Rightarrow> (st', (w', log @ l)))"
proof (induction servers arbitrary: st w log)
  case Nil
  then show ?case by simp
next
  case (Cons e servers)
  obtain srv cfg where e: "e = (srv, cfg)" by (cases e)
  obtain r st1 w1 where p: "connectServer ext penv srv cfg st w = (r, st1, w1)"
    by (metis prod.exhaust)
  with traced_connectServer [of ext penv srv cfg st w log] obtain l1 where
    t: "connectServer (traced ext) penv srv cfg st (w, log) = (r, st1, (w1, log @ l1))" by auto
  show ?case
  proof (cases r)
    case (Inl err)
    from Cons.IH [of "st1\<lparr> console_error := console_error st1 @ [failureLine srv err] \<rparr>" w1 "log @ l1"]
    obtain l2 where
      "initializeServers (traced ext) penv servers
         (st1\<lparr> console_error := console_error st1 @ [failureLine srv err] \<rparr>) (w1, log @ l1) =
       (case initializeServers ext penv servers
               (st1\<lparr> console_error := console_error st1 @ [failureLine srv err] \<rparr>) w1 of
          (st', w') \<Rightarrow> (st', (w', (log @ l1) @ l2)))" by blast
    with Inl p t e show ?thesis by (auto split: prod.splits)
  next
    case (Inr u)
    from Cons.IH [of st1 w1 "log @ l1"] obtain l2 where
      "initializeServers (traced ext) penv servers st1 (w1, log @ l1) =
       (case initializeServers ext penv servers st1 w1 of
          (st', w') \<Rightarrow> (st', (w', (log @ l1) @ l2)))" by blast
    with Inr p t e show ?thesis by (auto split: prod.splits)
  qed
qed

lemma traced_initializeMCP:
  "\<exists>l. initializeMCP (traced ext) penv mcpServers st (w, log) =
        (case initializeMCP ext penv mcpServers st w of (st', w') \<Rightarrow> (st', (w', log @ l)))"
  by (simp add: initializeMCP_def traced_initializeServers)

section \<open>Failed tool invocations\<close>

lemma callMCPTool_failure:
  "callMCPTool ext st tname tinput w = (Inl err, w1) \<longleftrightarrow>
     (find (\<lambda>t. name t = tname) (mcpTools st) = None \<and>
        err = Error (''Tool not found: '' @ tname) \<and> w1 = w) \<or>
     (\<exists>tool. find (\<lambda>t. name t = tname) (mcpTools st) = Some tool \<and>
        map_of (mcpClients st) (serverName tool) = None \<and>
        err = Error (''MCP client not found: '' @ serverName tool) \<and> w1 = w) \<or>
     (\<exists>tool client. find (\<lambda>t. name t = tname) (mcpTools st) = Some tool \<and>
        map_of (mcpClients st) (serverName tool) = Some client \<and>
        callTool ext client (originalName tool) tinput w = (Inl err, w1))"
  by (auto simp: callMCPTool_def split: option.splits)

lemma answeredCalls_append: "answeredCalls (xs @ ys) = answeredCalls xs @ answeredCalls ys"
  by (simp add: answeredCalls_def map_filter_def)

lemma answeredCalls_simps:
  "answeredCalls [] = []"
  "answeredCalls (Connect t # xs) = answeredCalls xs"
  "answeredCalls (ListTools c # xs) = answeredCalls xs"
  "answeredCalls (CallTool c n a # xs) = answeredCalls xs"
  "answeredCalls (Create req r v # xs) = (req, r, v) # answeredCalls xs"
  by (simp_all add: answeredCalls_def map_filter_def)

lemma successively_snoc:
  "successively P (xs @ [a, b]) \<longleftrightarrow> successively P (xs @ [a]) \<and> P a b"
proof (induction xs)
  case Nil
  then show ?case by simp
next
  case (Cons x xs)
  then show ?case by (cases xs) (auto simp: successively_Cons)
qed

text \<open>Dispatching adds calls of tools to the log and nothing else.\<close>


lemma callMCPTool_adds:
  "callMCPTool (traced ext) st n a (w, log) = (r, (w', log')) \<Longrightarrow>
   \<exists>l. log' = log @ l \<and> answeredCalls l = [] \<and> modelCalls l = []"
  by (auto simp: callMCPTool_def traced_simps answeredCalls_simps modelCalls_simps
      split: option.splits prod.splits)

lemma answerToolUse_adds:
  "answerToolUse (traced ext) st tid n a (w, log) = (r, (w', log')) \<Longrightarrow>
   \<exists>l. log' = log @ l \<and> answeredCalls l = [] \<and> modelCalls l = []"
  by (auto simp: answerToolUse_def Let_def split: prod.splits sum.splits
      dest: callMCPTool_adds)

lemma dispatchTools_adds:
  "dispatchTools (traced ext) st blocks acc (w, log) = (rs, (w', log')) \<Longrightarrow>
   \<exists>l. log' = log @ l \<and> answeredCalls l = [] \<and> modelCalls l = []"
proof (induction blocks arbitrary: acc w log)
  case Nil
  then show ?case by (simp add: answeredCalls_simps modelCalls_simps)
next
  case (Cons b blocks)
  show ?case
  proof (cases b)
    case (ToolUse tid n a)
    obtain r w1 log1 where a: "answerToolUse (traced ext) st tid n a (w, log) = (r, (w1, log1))"
      by (metis prod.exhaust)
    with Cons.prems ToolUse have
      run: "dispatchTools (traced ext) st blocks (acc @ [r]) (w1, log1) = (rs, (w', log'))"
      by simp
    from answerToolUse_adds [OF a] obtain l1 where
      l1: "log1 = log @ l1" "answeredCalls l1 = []" "modelCalls l1 = []" by blast
    from Cons.IH [OF run] obtain l2 where
      l2: "log' = log1 @ l2" "answeredCalls l2 = []" "modelCalls l2 = []" by blast
    from l1 l2 have "log' = log @ (l1 @ l2) \<and> answeredCalls (l1 @ l2) = [] \<and> modelCalls (l1 @ l2) = []"
      by (simp add: answeredCalls_append modelCalls_append)
    then show ?thesis by blast
  qed (use Cons in simp_all)
qed

lemma dispatchTools_traced_results:
  assumes "dispatchTools (traced ext) st blocks acc (w, log) = (rs, (w', log'))"
  shows "dispatchTools ext st blocks acc w = (rs, w')"
proof -
  obtain rs0 w0 where p: "dispatchTools ext st blocks acc w = (rs0, w0)" by (metis prod.exhaust)
  with traced_dispatchTools [of ext st blocks acc w log] assms show ?thesis by auto
qed

text \<open>The results of a list of blocks are those of its parts, one after the other.\<close>

lemma dispatchTools_append:
  "dispatchTools ext st (xs @ ys) acc w =
     (case dispatchTools ext st xs acc w of (rs, w1) \<Rightarrow> dispatchTools ext st ys rs w1)"
proof (induction xs arbitrary: acc w)
  case Nil
  then show ?case by simp
next
  case (Cons b xs)
  then show ?case by (cases b) (simp_all split: prod.splits)
qed

lemma dispatchTools_acc:
  "dispatchTools ext st blocks acc w =
     (case dispatchTools ext st blocks [] w of (rs, w1) \<Rightarrow> (acc @ rs, w1))"
proof (induction blocks arbitrary: acc w)
  case Nil
  then show ?case by simp
next
  case (Cons b blocks)
  show ?case
  proof (cases b)
    case (ToolUse tid n a)
    obtain r w1 where a: "answerToolUse ext st tid n a w = (r, w1)" by (metis prod.exhaust)
    have 1: "dispatchTools ext st blocks (acc @ [r]) w1 =
        (case dispatchTools ext st blocks [] w1 of (rs, w2) \<Rightarrow> ((acc @ [r]) @ rs, w2))"
      by (rule Cons.IH)
    have 2: "dispatchTools ext st blocks [r] w1 =
        (case dispatchTools ext st blocks [] w1 of (rs, w2) \<Rightarrow> ([r] @ rs, w2))"
      by (rule Cons.IH)
    show ?thesis
      using a ToolUse by (simp add: 1 2 split: prod.splits)
  qed (use Cons.IH [of acc w] in simp_all)
qed

lemma dispatchTools_failing_block:
  assumes pre: "dispatchTools ext st pre [] w = (rs, wp)"
      and fails: "callMCPTool ext st tname tinput wp = (Inl err, wq)"
  shows "dispatchTools ext st (pre @ ToolUse tid tname tinput # post) [] w =
           (case dispatchTools ext st post [] wq of
              (rs', w2) \<Rightarrow> (rs @ ToolResult tid (''Error: '' @ message err) (Some True) # rs', w2))"
proof -
  have "dispatchTools ext st (pre @ ToolUse tid tname tinput # post) [] w =
          dispatchTools ext st post (rs @ [ToolResult tid (''Error: '' @ message err) (Some True)]) wq"
    using pre fails by (simp add: dispatchTools_append answerToolUse_def)
  then show ?thesis
    by (simp add: dispatchTools_acc [of ext st post "rs @ _"] split: prod.splits)
qed

lemma toolUseLoop_dispatched:
  assumes "toolUseLoop fuel (traced ext) st sp tls resp msgs (w, log) = (out, msgs', (w', log'))"
      and "answeredCalls log = calls @ [(req, Inr resp, w)]"
      and "messages req = msgs"
      and "successively (dispatched ext st) (answeredCalls log)"
  shows "successively (dispatched ext st) (answeredCalls log')"
  using assms
proof (induction fuel arbitrary: resp msgs w log calls req)
  case 0
  then show ?case by (auto split: if_splits)
next
  case (Suc fuel)
  show ?case
  proof (cases "stop_reason resp = ''tool_use''")
    case False
    with Suc.prems show ?thesis by simp
  next
    case True
    let ?msgs1 = "msgs @ [\<lparr> role = assistant, content = Blocks (resp_content resp) \<rparr>]"
    obtain results w1 log1 where
      d: "dispatchTools (traced ext) st (resp_content resp) [] (w, log) = (results, (w1, log1))"
      by (metis prod.exhaust)
    let ?msgs2 = "?msgs1 @ [\<lparr> role = user, content = Blocks results \<rparr>]"
    obtain r w2 log2 where
      c: "createMessage (traced ext) sp ?msgs2 tls (w1, log1) = (r, (w2, log2))"
      by (metis prod.exhaust)
    from createMessage_traced [OF c] obtain req2 where
      log2: "log2 = log1 @ [Create req2 r w2]" and m2: "messages req2 = ?msgs2" by blast
    from dispatchTools_adds [OF d] obtain l where
      l: "log1 = log @ l" "answeredCalls l = []" by blast
    have res: "results = fst (dispatchTools ext st (resp_content resp) [] w)"
      using dispatchTools_traced_results [OF d] by simp
    have calls1: "answeredCalls log1 = calls @ [(req, Inr resp, w)]"
      using l Suc.prems(2) by (simp add: answeredCalls_append)
    have calls2: "answeredCalls log2 = calls @ [(req, Inr resp, w), (req2, r, w2)]"
      using calls1 log2 by (simp add: answeredCalls_append answeredCalls_simps)
    have f: "dispatched ext st (req, Inr resp, w) (req2, r, w2)"
      using True m2 Suc.prems(3) res by (simp add: dispatched_def)
    have ch2: "successively (dispatched ext st) (answeredCalls log2)"
      unfolding calls2 successively_snoc using Suc.prems(2,4) f by simp
    show ?thesis
    proof (cases r)
      case (Inl err)
      with Suc.prems(1) True d c have "log' = log2" by (simp add: Let_def)
      with ch2 show ?thesis by simp
    next
      case (Inr resp')
      with Suc.prems(1) True d c have
        run: "toolUseLoop fuel (traced ext) st sp tls resp' ?msgs2 (w2, log2) = (out, msgs', (w', log'))"
        by (simp add: Let_def)
      have c2: "answeredCalls log2 = (calls @ [(req, Inr resp, w)]) @ [(req2, Inr resp', w2)]"
        using calls2 Inr by simp
      from Suc.IH [OF run c2 m2 ch2] show ?thesis .
    qed
  qed
qed

lemma callClaudeAgent_dispatched:
  "successively (dispatched ext st) (answeredCalls (snd (snd (snd
      (callClaudeAgent fuel (traced ext) st agentType userMessage previousContext (w, []))))))"
proof -
  let ?sp = "agentPrompts agentType" and ?msgs = "seedMessages userMessage previousContext"
  let ?tls = "if agentType = ''researcher'' then getAnthropicTools st else []"
  obtain r w1 log1 where c: "createMessage (traced ext) ?sp ?msgs ?tls (w, []) = (r, (w1, log1))"
    by (metis prod.exhaust)
  from createMessage_traced [OF c] obtain req where
    log1: "log1 = [Create req r w1]" and m: "messages req = ?msgs" by auto
  show ?thesis
  proof (cases r)
    case (Inl err)
    with c log1 show ?thesis
      by (simp add: callClaudeAgent_def Let_def answeredCalls_simps)
  next
    case (Inr resp)
    obtain out msgs' w2 log2 where
      l: "toolUseLoop fuel (traced ext) st ?sp ?tls resp ?msgs (w1, log1) = (out, msgs', (w2, log2))"
      by (metis prod.exhaust)
    have "answeredCalls log1 = [] @ [(req, Inr resp, w1)]"
      using log1 Inr by (simp add: answeredCalls_simps)
    from toolUseLoop_dispatched [OF l this m] log1
    have "successively (dispatched ext st) (answeredCalls log2)"
      by (simp add: answeredCalls_simps)
    with c Inr l show ?thesis
      by (cases out) (simp_all add: callClaudeAgent_def Let_def)
  qed
qed

text \<open>How a run of the loop ends, read off the log.\<close>

lemma toolUseLoop_ends:
  assumes "toolUseLoop fuel (traced ext) st sp tls resp msgs (w, log) = (out, msgs', (w', log'))"
      and "last log = Create req (Inr resp) w" and "log \<noteq> []"
  shows "(case out of
            Returned final \<Rightarrow>
              \<exists>req' v. last log' = Create req' (Inr final) v \<and> stop_reason final \<noteq> ''tool_use''
          | Raised e \<Rightarrow> \<exists>req' v. last log' = Create req' (Inl e) v
          | OutOfFuel \<Rightarrow>
              (\<exists>req' resp' v. last log' = Create req' (Inr resp') v \<and>
                  stop_reason resp' = ''tool_use'') \<and>
              length (modelCalls log') = length (modelCalls log) + fuel)"
  using assms
proof (induction fuel arbitrary: resp msgs w log req)
  case 0
  then show ?case by (auto split: if_splits)
next
  case (Suc fuel)
  show ?case
  proof (cases "stop_reason resp = ''tool_use''")
    case False
    with Suc.prems show ?thesis by auto
  next
    case True
    let ?msgs1 = "msgs @ [\<lparr> role = assistant, content = Blocks (resp_content resp) \<rparr>]"
    obtain results w1 log1 where
      d: "dispatchTools (traced ext) st (resp_content resp) [] (w, log) = (results, (w1, log1))"
      by (metis prod.exhaust)
    let ?msgs2 = "?msgs1 @ [\<lparr> role = user, content = Blocks results \<rparr>]"
    obtain r w2 log2 where
      c: "createMessage (traced ext) sp ?msgs2 tls (w1, log1) = (r, (w2, log2))"
      by (metis prod.exhaust)
    from createMessage_traced [OF c] obtain req2 where
      log2: "log2 = log1 @ [Create req2 r w2]" by blast
    from dispatchTools_adds [OF d] obtain l where
      l: "log1 = log @ l" "modelCalls l = []" by blast
    have n2: "length (modelCalls log2) = Suc (length (modelCalls log))"
      using l log2 by (simp add: modelCalls_append modelCalls_simps)
    have last2: "last log2 = Create req2 r w2" and ne2: "log2 \<noteq> []"
      using log2 by simp_all
    show ?thesis
    proof (cases r)
      case (Inl err)
      with Suc.prems(1) True d c have "log' = log2" and "out = Raised err"
        by (simp_all add: Let_def)
      with last2 Inl show ?thesis by simp
    next
      case (Inr resp')
      with Suc.prems(1) True d c have
        run: "toolUseLoop fuel (traced ext) st sp tls resp' ?msgs2 (w2, log2) = (out, msgs', (w', log'))"
        by (simp add: Let_def)
      from last2 Inr have last2': "last log2 = Create req2 (Inr resp') w2" by simp
      from Suc.IH [OF run last2' ne2] n2 show ?thesis
        by (cases out) simp_all
    qed
  qed
qed

lemma callClaudeAgent_ends:
  assumes "callClaudeAgent fuel (traced ext) st agentType userMessage previousContext (w, []) =
             (out, msgs', (w', log'))"
  shows "(case out of
            Returned t \<Rightarrow>
              \<exists>req resp v. last log' = Create req (Inr resp) v \<and>
                 stop_reason resp \<noteq> ''tool_use'' \<and> t = finalText (resp_content resp)
          | Raised e \<Rightarrow> \<exists>req v. last log' = Create req (Inl e) v
          | OutOfFuel \<Rightarrow>
              (\<exists>req resp v. last log' = Create req (Inr resp) v \<and>
                  stop_reason resp = ''tool_use'') \<and>
              length (modelCalls log') = Suc fuel)"
proof -
  let ?sp = "agentPrompts agentType" and ?msgs = "seedMessages userMessage previousContext"
  let ?tls = "if agentType = ''researcher'' then getAnthropicTools st else []"
  obtain r w1 log1 where c: "createMessage (traced ext) ?sp ?msgs ?tls (w, []) = (r, (w1, log1))"
    by (metis prod.exhaust)
  from createMessage_traced [OF c] obtain req where log1: "log1 = [Create req r w1]" by auto
  show ?thesis
  proof (cases r)
    case (Inl err)
    with assms c log1 show ?thesis by (auto simp: callClaudeAgent_def Let_def)
  next
    case (Inr resp)
    obtain out2 msgs2 w2 log2 where
      l: "toolUseLoop fuel (traced ext) st ?sp ?tls resp ?msgs (w1, log1) = (out2, msgs2, (w2, log2))"
      by (metis prod.exhaust)
    have last1: "last log1 = Create req (Inr resp) w1" and ne1: "log1 \<noteq> []"
      using log1 Inr by simp_all
    have n1: "length (modelCalls log1) = 1" using log1 by (simp add: modelCalls_simps)
    from toolUseLoop_ends [OF l last1 ne1] n1 assms c Inr l show ?thesis
      by (cases out2) (auto simp: callClaudeAgent_def Let_def)
  qed
qed

text \<open>
  C2. A tool request whose invocation fails is answered, at its place among the
  results of the response's blocks, by a tool result with its identifier, the content
  \<open>Error: \<close> followed by the failure message, and \<open>is_error\<close> true, and the blocks
  after it are dispatched as usual. The invocation fails in exactly three ways: no
  tool of that name is registered, the tool's provider has no client, or the
  provider's call rejected; the message is then \<open>Tool not found: \<close> and the name,
  \<open>MCP client not found: \<close> and the provider, or the provider's own. In every run of
  the agent, for every bound on the iterations, each model call after the first is made
  with the messages of the call before it, the assistant turn with that call's answer
  and one user turn with exactly those results, the error results among them. And a
  run ends in one of three ways only: it returns the text of its last model answer,
  which did not ask for tools; it rejects with the error of its last model call; or
  its last model answer asked for tools and the bound is used up. So no failure of a
  tool makes the run reject or keeps it from the next model call.
\<close>

theorem tool_failures_are_reported:
  "(dispatchTools ext st pre [] w = (rs, wp) \<and>
    callMCPTool ext st tname tinput wp = (Inl err, wq) \<longrightarrow>
      dispatchTools ext st (pre @ ToolUse tid tname tinput # post) [] w =
        (case dispatchTools ext st post [] wq of
           (rs', w2) \<Rightarrow>
             (rs @ ToolResult tid (''Error: '' @ message err) (Some True) # rs', w2))) \<and>
   (callMCPTool ext st tname tinput wp = (Inl err, wq) \<longleftrightarrow>
      (find (\<lambda>t. name t = tname) (mcpTools st) = None \<and>
         err = Error (''Tool not found: '' @ tname) \<and> wq = wp) \<or>
      (\<exists>tool. find (\<lambda>t. name t = tname) (mcpTools st) = Some tool \<and>
         map_of (mcpClients st) (serverName tool) = None \<and>
         err = Error (''MCP client not found: '' @ serverName tool) \<and> wq = wp) \<or>
      (\<exists>tool client. find (\<lambda>t. name t = tname) (mcpTools st) = Some tool \<and>
         map_of (mcpClients st) (serverName tool) = Some client \<and>
         callTool ext client (originalName tool) tinput wp = (Inl err, wq))) \<and>
   successively (dispatched ext st) (answeredCalls (snd (snd (snd
      (callClaudeAgent fuel (traced ext) st agentType userMessage previousContext (w0, [])))))) \<and>
   (case fst (callClaudeAgent fuel (traced ext) st agentType userMessage previousContext (w0, [])) of
      Returned t \<Rightarrow>
        \<exists>req resp v.
          last (snd (snd (snd
            (callClaudeAgent fuel (traced ext) st agentType userMessage previousContext (w0, [])))))
            = Create req (Inr resp) v \<and>
          stop_reason resp \<noteq> ''tool_use'' \<and> t = finalText (resp_content resp)
    | Raised e \<Rightarrow>
        \<exists>req v.
          last (snd (snd (snd
            (callClaudeAgent fuel (traced ext) st agentType userMessage previousContext (w0, [])))))
            = Create req (Inl e) v
    | OutOfFuel \<Rightarrow>
        (\<exists>req resp v.
           last (snd (snd (snd
             (callClaudeAgent fuel (traced ext) st agentType userMessage previousContext (w0, [])))))
             = Create req (Inr resp) v \<and>
           stop_reason resp = ''tool_use'') \<and>
        length (modelCalls (snd (snd (snd
          (callClaudeAgent fuel (traced ext) st agentType userMessage previousContext (w0, []))))))
          = Suc fuel)"
proof -
  let ?run = "callClaudeAgent fuel (traced ext) st agentType userMessage previousContext (w0, [])"
  have a: "dispatchTools ext st pre [] w = (rs, wp) \<and>
    callMCPTool ext st tname tinput wp = (Inl err, wq) \<longrightarrow>
      dispatchTools ext st (pre @ ToolUse tid tname tinput # post) [] w =
        (case dispatchTools ext st post [] wq of
           (rs', w2) \<Rightarrow>
             (rs @ ToolResult tid (''Error: '' @ message err) (Some True) # rs', w2))"
    by (intro impI, elim conjE) (rule dispatchTools_failing_block)
  have c: "successively (dispatched ext st) (answeredCalls (snd (snd (snd ?run))))"
    by (rule callClaudeAgent_dispatched)
  have run: "?run = (fst ?run, fst (snd ?run), (fst (snd (snd ?run)), snd (snd (snd ?run))))"
    by simp
  note d = callClaudeAgent_ends [OF run]
  from a callMCPTool_failure [of ext st tname tinput wp err wq] c d show ?thesis
    by (simp only: simp_thms)
qed

text \<open>
  The stub run: after a successful \<open>t1\<close>, \<open>t2\<close> fails in the provider's call and
  \<open>t3\<close> names no registered tool. The second model call carries both error results
  after the result of \<open>t1\<close>, and the run returns.
\<close>

theorem tool_failures_are_reported_witness:
  "callMCPTool stubExt stubState ''search__news'' JNull 1 = (Inl (Error ''rate limited''), 1) \<and>
   callMCPTool stubExt stubState ''nowhere__tool'' JNull 1 =
     (Inl (Error ''Tool not found: nowhere__tool''), 1) \<and>
   dispatchTools stubExt stubState (resp_content stubToolUse) [] 1 =
     ([ToolResult ''t1'' ''first second'' None,
       ToolResult ''t2'' ''Error: rate limited'' (Some True),
       ToolResult ''t3'' ''Error: Tool not found: nowhere__tool'' (Some True)], 1) \<and>
   map (\<lambda>c. messages (fst c)) (answeredCalls (snd (snd (snd
      (callClaudeAgent (Suc 0) (traced stubExt) stubState ''researcher'' ''tides'' None (0, [])))))) =
     [[\<lparr> role = user, content = Str ''tides'' \<rparr>],
      [\<lparr> role = user, content = Str ''tides'' \<rparr>,
       \<lparr> role = assistant, content = Blocks (resp_content stubToolUse) \<rparr>,
       \<lparr> role = user, content = Blocks
          [ToolResult ''t1'' ''first second'' None,
           ToolResult ''t2'' ''Error: rate limited'' (Some True),
           ToolResult ''t3'' ''Error: Tool not found: nowhere__tool'' (Some True)] \<rparr>]] \<and>
   fst (callClaudeAgent (Suc 0) (traced stubExt) stubState ''researcher'' ''tides'' None (0, [])) =
     Returned ''Finding one.\<newline>Finding two.'' \<and>
   successively (dispatched stubExt stubState) (answeredCalls (snd (snd (snd
      (callClaudeAgent (Suc 0) (traced stubExt) stubState ''researcher'' ''tides'' None (0, []))))))"
proof -
  have pre: "dispatchTools stubExt stubState
      [Text ''Let me look this up.'',
       ToolUse ''t1'' ''search__lookup'' (JObject [(''q'', JString ''tides'')])] [] 1 =
      ([ToolResult ''t1'' ''first second'' None], 1)"
    by code_simp
  have f2: "callMCPTool stubExt stubState ''search__news'' JNull 1 = (Inl (Error ''rate limited''), 1)"
    by code_simp
  have f3: "callMCPTool stubExt stubState ''nowhere__tool'' JNull 1 =
     (Inl (Error ''Tool not found: nowhere__tool''), 1)"
    by code_simp
  have post: "dispatchTools stubExt stubState [ToolUse ''t3'' ''nowhere__tool'' JNull] [] 1 =
      ([ToolResult ''t3'' ''Error: Tool not found: nowhere__tool'' (Some True)], 1)"
    by code_simp
  have blocks: "resp_content stubToolUse =
      [Text ''Let me look this up.'',
       ToolUse ''t1'' ''search__lookup'' (JObject [(''q'', JString ''tides'')])] @
      ToolUse ''t2'' ''search__news'' JNull # [ToolUse ''t3'' ''nowhere__tool'' JNull]"
    by (simp add: stubToolUse_def)
  note inst = tool_failures_are_reported [where ext = stubExt and st = stubState
      and pre = "[Text ''Let me look this up.'',
        ToolUse ''t1'' ''search__lookup'' (JObject [(''q'', JString ''tides'')])]"
      and w = 1 and rs = "[ToolResult ''t1'' ''first second'' None]" and wp = 1
      and tname = "''search__news''" and tinput = JNull and err = "Error ''rate limited''"
      and wq = 1 and tid = "''t2''" and post = "[ToolUse ''t3'' ''nowhere__tool'' JNull]"
      and fuel = "Suc 0" and agentType = "''researcher''" and userMessage = "''tides''"
      and previousContext = None and ?w0.0 = 0]
  have disp: "dispatchTools stubExt stubState (resp_content stubToolUse) [] 1 =
     ([ToolResult ''t1'' ''first second'' None,
       ToolResult ''t2'' ''Error: rate limited'' (Some True),
       ToolResult ''t3'' ''Error: Tool not found: nowhere__tool'' (Some True)], 1)"
    using inst pre f2 post unfolding blocks by simp
  have chain: "successively (dispatched stubExt stubState) (answeredCalls (snd (snd (snd
      (callClaudeAgent (Suc 0) (traced stubExt) stubState ''researcher'' ''tides'' None (0, []))))))"
    using inst by (simp only: simp_thms)
  have msgs: "map (\<lambda>c. messages (fst c)) (answeredCalls (snd (snd (snd
      (callClaudeAgent (Suc 0) (traced stubExt) stubState ''researcher'' ''tides'' None (0, [])))))) =
     [[\<lparr> role = user, content = Str ''tides'' \<rparr>],
      [\<lparr> role = user, content = Str ''tides'' \<rparr>,
       \<lparr> role = assistant, content = Blocks (resp_content stubToolUse) \<rparr>,
       \<lparr> role = user, content = Blocks
          [ToolResult ''t1'' ''first second'' None,
           ToolResult ''t2'' ''Error: rate limited'' (Some True),
           ToolResult ''t3'' ''Error: Tool not found: nowhere__tool'' (Some True)] \<rparr>]]"
    by code_simp
  have ret: "fst (callClaudeAgent (Suc 0) (traced stubExt) stubState ''researcher'' ''tides'' None (0, [])) =
     Returned ''Finding one.\<newline>Finding two.''"
    by code_simp
  from f2 f3 disp msgs ret chain show ?thesis by (simp only: simp_thms)
qed

end
